theory Spec2Isabelle
  imports Complex_Main "HOL-Library.AList"
begin

section \<open>The state manager of the budget tracker (src/context/AppContext.tsx)\<close>

text \<open>
  The provider component \<^verbatim>\<open>AppProvider\<close> keeps the live snapshot (transactions, accounts,
  categories, budget, per-category budgets, settings), the sync state and three refs, and
  mirrors them into the browser's key-value storage. The embedding is by explicit state
  passing: every React state cell, every ref and the storage are fields of the record
  \<open>app\<close>; a state setter is a record update, and a functional setter
  \<^verbatim>\<open>setX(prev => f(prev))\<close> is \<open>f\<close> applied to the field as it is at that moment.
  An \<^verbatim>\<open>async\<close> function is cut at each \<^verbatim>\<open>await\<close> of a network call: the part before the
  call is one function, which returns what it asks of the network, and the part after
  the call is a second function, which takes the network's answer as an argument.

  Conventions.
  \<^item> A JavaScript value \<^verbatim>\<open>string | null | undefined\<close> is a \<open>string option\<close>; \<^verbatim>\<open>null\<close> and
    \<^verbatim>\<open>undefined\<close> are both \<open>None\<close>. An optional array, object or number is an option of
    the value.
  \<^item> A JavaScript \<^verbatim>\<open>number\<close> is a \<open>real\<close>; \<^verbatim>\<open>NaN\<close> and rounding are not modelled.
  \<^item> An operation reads the state cells through the closure of the latest render, so
    the values it reads are those of the state it is applied to.
  \<^item> Platform functions are arguments: \<open>date_ms\<close> is \<^verbatim>\<open>s => new Date(s).getTime()\<close>
    on the strings that are dates, and \<open>valid_date\<close> says which strings are (on the
    others \<^verbatim>\<open>getTime()\<close> is \<^verbatim>\<open>NaN\<close>); \<open>num_str\<close> is the conversion of a number in a template
    string, \<open>uuid\<close> is the sequence of results of \<^verbatim>\<open>safeUUID()\<close>, \<open>now\<close> is
    \<^verbatim>\<open>Date.now()\<close> and \<open>nowIso\<close> is \<^verbatim>\<open>new Date().toISOString()\<close>.
  \<^item> The constants of \<^verbatim>\<open>../constants\<close> that the file imports are the fields of the
    record \<open>constants\<close>, an argument of every function that uses one.
  \<^item> The cells that the synchronisation never reads (custom translations, the AI
    insight, the pending deletes, the two flags of the user interface) are left out.
\<close>

subsection \<open>Data\<close>

datatype tx_type = income | expense | transfer

text \<open>\<^verbatim>\<open>Transaction\<close>. An \<open>id_tx\<close> or a \<open>date\<close> that is missing is the empty string
  (both are falsy in the source's tests \<^verbatim>\<open>t.id || ...\<close> and \<^verbatim>\<open>t.date ? ... : ''\<close>).\<close>

record transaction =
  id_tx :: string
  type_tx :: tx_type
  amount :: real
  date :: string
  note_tx :: "string option"
  accountId :: "string option"
  fromAccountId :: "string option"
  toAccountId :: "string option"
  categoryId :: "string option"
  isPendingSync :: bool

text \<open>\<^verbatim>\<open>Account\<close> and \<^verbatim>\<open>Category\<close>: the id, the name, and the remaining fields, which
  this file never reads, as one opaque value.\<close>

record account =
  id_acc :: string
  name_acc :: string
  rest_acc :: string

record category =
  id_cat :: string
  name_cat :: string
  rest_cat :: string

record categoryBudget =
  categoryId_cb :: string
  amount_cb :: real

text \<open>A settings object is a finite map from keys to values; the spread
  \<^verbatim>\<open>{ ...a, ...b }\<close> is \<open>a ++ b\<close>.\<close>

datatype jsval = JBool bool | JStr string | JNum real | JList "jsval list"

type_synonym settings_obj = "string \<rightharpoonup> jsval"

record wallet =
  id_wallet :: string
  name_wallet :: string
  currency_wallet :: string

record userProfile =
  id_user :: string
  email :: "string option"
  name_user :: string
  createdAt :: string
  emailVerified :: bool
  photoURL :: "string option"

text \<open>The object \<^verbatim>\<open>{ transactions, accounts, categories, budget, category_budgets,
  settings }\<close>: what is saved per context, pushed to the cloud, and read back. Read back
  (typed \<^verbatim>\<open>any\<close>), each field may be missing.\<close>

record snapshot_data =
  d_transactions :: "transaction list option"
  d_accounts :: "account list option"
  d_categories :: "category list option"
  d_budget :: "real option"
  d_category_budgets :: "categoryBudget list option"
  d_settings :: "settings_obj option"

text \<open>The storage service: one field per key of \<^verbatim>\<open>STORAGE_KEYS\<close> that the sync engine
  uses (\<open>None\<close>: the key was never written, \<^verbatim>\<open>storage.get\<close> returns its default), and the
  composite keys \<^verbatim>\<open>sb_wallet_<id>_data\<close> and \<^verbatim>\<open>sb_personal_data\<close> as a map from the key.
  The keys of \<^verbatim>\<open>STORAGE_KEYS\<close> are taken to differ from one another and from the composite
  keys. The keys \<^verbatim>\<open>LAST_SYNC\<close> and \<^verbatim>\<open>ACTIVE_WALLET_ID\<close> hold a string or \<^verbatim>\<open>null\<close>, and their
  default is \<^verbatim>\<open>null\<close>, so the field is what \<^verbatim>\<open>storage.get(key, null)\<close> returns.\<close>

record store =
  st_TRANSACTIONS :: "transaction list option"
  st_ACCOUNTS :: "account list option"
  st_CATEGORIES :: "category list option"
  st_BUDGET :: "real option"
  st_CATEGORY_BUDGETS :: "categoryBudget list option"
  st_SETTINGS :: "settings_obj option"
  st_WALLETS_LIST :: "wallet list option"
  st_LAST_SYNC :: "string option"
  st_UNSYNCED_CHANGES :: "bool option"
  st_ACTIVE_WALLET_ID :: "string option"
  st_composite :: "string \<rightharpoonup> snapshot_data"

record syncState =
  isLoggedIn :: bool
  user :: "userProfile option"
  lastSync :: "string option"
  backupSize :: "string option"
  pendingRestoreAvailable :: bool
  isOnline :: bool
  pendingActionsCount :: nat
  isSyncing :: bool
  isRealtimeConnected :: bool
  unsyncedChanges :: bool
  activeWalletId :: "string option"
  syncStatusMessage :: "string option"

datatype notification_type = success | error | info

record notification =
  message :: string
  type_n :: notification_type
  id_n :: nat

text \<open>What a push sends: \<^verbatim>\<open>cloudDrive.syncWalletData(walletId, userId, data)\<close> or
  \<^verbatim>\<open>cloudDrive.backupUserData(userId, data)\<close>.\<close>

datatype push_request =
  SyncWalletData string string snapshot_data
| BackupUserData string snapshot_data

text \<open>The whole state. \<open>outstanding\<close> is not a cell of the program: it lists the push
  requests handed to the network and not yet answered, so that "a push is in flight"
  can be said of a state.\<close>

record app =
  transactions :: "transaction list"
  accounts :: "account list"
  categories :: "category list"
  budget :: real
  categoryBudgets :: "categoryBudget list"
  settings :: settings_obj
  wallets :: "wallet list"
  syncState :: syncState
  notification :: "notification option"
  sessionVersion :: nat
  isBackingUpRef :: bool
  isLoggingOutRef :: bool
  storage :: store
  outstanding :: "push_request list"

record constants =
  INITIAL_ACCOUNTS :: "account list"
  INITIAL_CATEGORIES :: "category list"
  DEFAULT_SETTINGS :: settings_obj

subsection \<open>JavaScript idioms\<close>

text \<open>Truthiness of a \<^verbatim>\<open>string | null\<close>: \<^verbatim>\<open>null\<close>, \<^verbatim>\<open>undefined\<close> and \<^verbatim>\<open>''\<close> are falsy.\<close>

definition truthy :: "string option \<Rightarrow> bool" where
  "truthy v = (case v of None \<Rightarrow> False | Some s \<Rightarrow> s \<noteq> [])"

text \<open>\<^verbatim>\<open>v || d\<close> where \<open>v\<close> is an array or an object when present (always truthy).\<close>

definition or_default :: "'a option \<Rightarrow> 'a \<Rightarrow> 'a" where
  "or_default v d = (case v of None \<Rightarrow> d | Some x \<Rightarrow> x)"

text \<open>\<^verbatim>\<open>v || 0\<close> on an optional number: \<open>0\<close> is falsy and is replaced by \<open>0\<close>.\<close>

definition or_zero :: "real option \<Rightarrow> real" where
  "or_zero v = (case v of None \<Rightarrow> 0 | Some x \<Rightarrow> (if x = 0 then 0 else x))"

text \<open>\<^verbatim>\<open>v || null\<close> on a \<^verbatim>\<open>string | undefined\<close>.\<close>

definition or_null :: "string option \<Rightarrow> string option" where
  "or_null v = (if truthy v then v else None)"

text \<open>\<^verbatim>\<open>{ ...prev, ...o }\<close> where the second object may be \<^verbatim>\<open>undefined\<close> (spreading it adds nothing).\<close>

definition spread_opt :: "settings_obj \<Rightarrow> settings_obj option \<Rightarrow> settings_obj" where
  "spread_opt prev ob = (case ob of None \<Rightarrow> prev | Some m \<Rightarrow> prev ++ m)"

definition is_space :: "char \<Rightarrow> bool" where
  "is_space c = (c \<in> set [CHR '' '', CHR 0x09, CHR 0x0A, CHR 0x0B, CHR 0x0C, CHR 0x0D])"

text \<open>\<^verbatim>\<open>s.trim()\<close>, on the ASCII white space.\<close>

definition trim :: "string \<Rightarrow> string" where
  "trim s = rev (dropWhile is_space (rev (dropWhile is_space s)))"

text \<open>\<^verbatim>\<open>s.split('T')[0]\<close>: the part before the first \<^verbatim>\<open>T\<close>.\<close>

definition split_T_0 :: "string \<Rightarrow> string" where
  "split_T_0 s = takeWhile (\<lambda>c. c \<noteq> CHR ''T'') s"

text \<open>The decimal digits of a natural number, for \<^verbatim>\<open>`acc_${Date.now()}`\<close>.\<close>

fun digits :: "nat \<Rightarrow> string" where
  "digits n = (if n < 10 then [''0123456789'' ! n]
               else digits (n div 10) @ [''0123456789'' ! (n mod 10)])"

declare digits.simps [simp del]

definition type_str :: "tx_type \<Rightarrow> string" where
  "type_str ty = (case ty of income \<Rightarrow> ''income'' | expense \<Rightarrow> ''expense'' | transfer \<Rightarrow> ''transfer'')"

subsection \<open>Setters, the dirty tracker, notifications\<close>

definition setSyncState :: "(syncState \<Rightarrow> syncState) \<Rightarrow> app \<Rightarrow> app" where
  "setSyncState f s = s\<lparr>syncState := f (syncState s)\<rparr>"

definition showNotification :: "nat \<Rightarrow> string \<Rightarrow> notification_type \<Rightarrow> app \<Rightarrow> app" where
  "showNotification now msg ty s =
     s\<lparr>notification := Some \<lparr>message = msg, type_n = ty, id_n = now\<rparr>\<rparr>"

definition markAsDirty :: "app \<Rightarrow> app" where
  "markAsDirty s =
     setSyncState (\<lambda>prev. if \<not> unsyncedChanges prev then prev\<lparr>unsyncedChanges := True\<rparr> else prev) s"

subsection \<open>CRUD operations\<close>

definition addTransaction :: "transaction \<Rightarrow> string \<Rightarrow> app \<Rightarrow> app" where
  "addTransaction data_tx fresh s =
     (let nextTx = data_tx\<lparr>id_tx := fresh, isPendingSync := True\<rparr>
      in markAsDirty (s\<lparr>transactions := nextTx # transactions s\<rparr>))"

definition signature_tx :: "(real \<Rightarrow> string) \<Rightarrow> transaction \<Rightarrow> string" where
  "signature_tx num_str t =
     (if date t \<noteq> [] then split_T_0 (date t) else []) @ ''-'' @ num_str (amount t) @ ''-''
       @ type_str (type_tx t) @ ''-'' @ trim (or_default (note_tx t) [])"

definition importTransactions ::
  "(real \<Rightarrow> string) \<Rightarrow> (nat \<Rightarrow> string) \<Rightarrow> transaction list \<Rightarrow> app \<Rightarrow> app" where
  "importTransactions num_str uuid newTxs s =
     (let prev = transactions s;
          existingSigs = set (map (signature_tx num_str) prev);
          uniqueNew = filter (\<lambda>t. signature_tx num_str t \<notin> existingSigs) newTxs;
          safeUniqueNew = map (\<lambda>(i, t). t\<lparr>id_tx := (if id_tx t \<noteq> [] then id_tx t else uuid i),
                                            isPendingSync := True\<rparr>)
                              (enumerate 0 uniqueNew)
      in markAsDirty (s\<lparr>transactions := prev @ safeUniqueNew\<rparr>))"

definition updateTransaction :: "transaction \<Rightarrow> app \<Rightarrow> app" where
  "updateTransaction data_tx s =
     markAsDirty (s\<lparr>transactions :=
        map (\<lambda>item. if id_tx item = id_tx data_tx then data_tx\<lparr>isPendingSync := True\<rparr> else item)
            (transactions s)\<rparr>)"

definition deleteTransaction :: "string \<Rightarrow> app \<Rightarrow> app" where
  "deleteTransaction txId s =
     markAsDirty (s\<lparr>transactions := filter (\<lambda>tx. id_tx tx \<noteq> txId) (transactions s)\<rparr>)"

definition addAccount :: "account \<Rightarrow> nat \<Rightarrow> app \<Rightarrow> app" where
  "addAccount a now s =
     markAsDirty (s\<lparr>accounts := accounts s @ [a\<lparr>id_acc := ''acc_'' @ digits now\<rparr>]\<rparr>)"

definition updateAccountName :: "string \<Rightarrow> string \<Rightarrow> app \<Rightarrow> app" where
  "updateAccountName i n s =
     markAsDirty (s\<lparr>accounts :=
        map (\<lambda>a. if id_acc a = i then a\<lparr>name_acc := n\<rparr> else a) (accounts s)\<rparr>)"

text \<open>The cascade of \<^verbatim>\<open>deleteAccount\<close> on one transaction: every reference to the deleted
  account becomes the fallback id (\<^verbatim>\<open>undefined\<close> when no account remains).\<close>

definition reassign :: "string \<Rightarrow> string option \<Rightarrow> transaction \<Rightarrow> transaction" where
  "reassign i fallbackId t =
     (let c1 = (accountId t = Some i);
          c2 = (fromAccountId t = Some i);
          c3 = (toAccountId t = Some i);
          n1 = (if c1 then t\<lparr>accountId := fallbackId\<rparr> else t);
          n2 = (if c2 then n1\<lparr>fromAccountId := fallbackId\<rparr> else n1);
          nextT = (if c3 then n2\<lparr>toAccountId := fallbackId\<rparr> else n2)
      in if c1 \<or> c2 \<or> c3 then nextT\<lparr>isPendingSync := True\<rparr> else nextT)"

definition deleteAccount :: "string \<Rightarrow> app \<Rightarrow> app" where
  "deleteAccount i s =
     (let remainingAccounts = filter (\<lambda>a. id_acc a \<noteq> i) (accounts s);
          fallbackId = (case remainingAccounts of [] \<Rightarrow> None | a # _ \<Rightarrow> Some (id_acc a))
      in markAsDirty (s\<lparr>accounts := filter (\<lambda>a. id_acc a \<noteq> i) (accounts s),
                         transactions := map (reassign i fallbackId) (transactions s)\<rparr>))"

definition addCategory :: "category \<Rightarrow> nat \<Rightarrow> app \<Rightarrow> app" where
  "addCategory c now s =
     markAsDirty (s\<lparr>categories := categories s @ [c\<lparr>id_cat := ''cat_'' @ digits now\<rparr>]\<rparr>)"

definition updateCategory :: "category \<Rightarrow> app \<Rightarrow> app" where
  "updateCategory c s =
     markAsDirty (s\<lparr>categories :=
        map (\<lambda>cat. if id_cat cat = id_cat c then c else cat) (categories s)\<rparr>)"

definition deleteCategory :: "string \<Rightarrow> app \<Rightarrow> app" where
  "deleteCategory i s =
     markAsDirty (s\<lparr>categories := filter (\<lambda>c. id_cat c \<noteq> i) (categories s),
                     categoryBudgets := filter (\<lambda>b. categoryId_cb b \<noteq> i) (categoryBudgets s),
                     transactions :=
                       map (\<lambda>t. if categoryId t = Some i
                                then t\<lparr>categoryId := None, isPendingSync := True\<rparr> else t)
                           (transactions s)\<rparr>)"

definition updateBudget :: "real \<Rightarrow> app \<Rightarrow> app" where
  "updateBudget n s = markAsDirty (s\<lparr>budget := n\<rparr>)"

definition updateCategoryBudget :: "string \<Rightarrow> real \<Rightarrow> app \<Rightarrow> app" where
  "updateCategoryBudget cid n s =
     markAsDirty (s\<lparr>categoryBudgets :=
        filter (\<lambda>b. categoryId_cb b \<noteq> cid) (categoryBudgets s)
          @ [\<lparr>categoryId_cb = cid, amount_cb = n\<rparr>]\<rparr>)"

definition updateSettings :: "settings_obj \<Rightarrow> app \<Rightarrow> app" where
  "updateSettings p s = markAsDirty (s\<lparr>settings := settings s ++ p\<rparr>)"

text \<open>The mutating operations that the provider exposes, with their arguments and the
  platform values they draw.\<close>

datatype mutation =
  AddTransaction transaction string
| UpdateTransaction transaction
| DeleteTransaction string
| ImportTransactions "real \<Rightarrow> string" "nat \<Rightarrow> string" "transaction list"
| AddAccount account nat
| UpdateAccountName string string
| DeleteAccount string
| AddCategory category nat
| UpdateCategory category
| DeleteCategory string
| UpdateBudget real
| UpdateCategoryBudget string real
| UpdateSettings settings_obj

fun mutate :: "mutation \<Rightarrow> app \<Rightarrow> app" where
  "mutate (AddTransaction d fresh) s = addTransaction d fresh s"
| "mutate (UpdateTransaction d) s = updateTransaction d s"
| "mutate (DeleteTransaction i) s = deleteTransaction i s"
| "mutate (ImportTransactions num_str uuid txs) s = importTransactions num_str uuid txs s"
| "mutate (AddAccount a now) s = addAccount a now s"
| "mutate (UpdateAccountName i n) s = updateAccountName i n s"
| "mutate (DeleteAccount i) s = deleteAccount i s"
| "mutate (AddCategory c now) s = addCategory c now s"
| "mutate (UpdateCategory c) s = updateCategory c s"
| "mutate (DeleteCategory i) s = deleteCategory i s"
| "mutate (UpdateBudget n) s = updateBudget n s"
| "mutate (UpdateCategoryBudget cid n) s = updateCategoryBudget cid n s"
| "mutate (UpdateSettings p) s = updateSettings p s"

text \<open>A sequence of mutating operations, applied from left to right.\<close>

definition mutate_all :: "mutation list \<Rightarrow> app \<Rightarrow> app" where
  "mutate_all ms s = foldl (\<lambda>st m. mutate m st) s ms"

subsection \<open>Initial state and persistence effects\<close>

definition empty_store :: store where
  "empty_store =
     \<lparr>st_TRANSACTIONS = None, st_ACCOUNTS = None, st_CATEGORIES = None, st_BUDGET = None,
      st_CATEGORY_BUDGETS = None, st_SETTINGS = None, st_WALLETS_LIST = None,
      st_LAST_SYNC = None, st_UNSYNCED_CHANGES = None, st_ACTIVE_WALLET_ID = None,
      st_composite = Map.empty\<rparr>"

text \<open>The \<^verbatim>\<open>useState\<close> initialisers and the initial refs, over the storage \<open>st\<close> found at
  start; \<open>online\<close> is \<^verbatim>\<open>navigator.onLine\<close>.\<close>

definition initial_app :: "constants \<Rightarrow> bool \<Rightarrow> store \<Rightarrow> app" where
  "initial_app K online st =
     \<lparr>transactions = or_default (st_TRANSACTIONS st) [],
      accounts = or_default (st_ACCOUNTS st) (INITIAL_ACCOUNTS K),
      categories = or_default (st_CATEGORIES st) (INITIAL_CATEGORIES K),
      budget = or_default (st_BUDGET st) 0,
      categoryBudgets = or_default (st_CATEGORY_BUDGETS st) [],
      settings = DEFAULT_SETTINGS K ++ or_default (st_SETTINGS st) (DEFAULT_SETTINGS K),
      wallets = or_default (st_WALLETS_LIST st) [],
      syncState =
        \<lparr>isLoggedIn = False, user = None, lastSync = st_LAST_SYNC st, backupSize = None,
         pendingRestoreAvailable = False, isOnline = online, pendingActionsCount = 0,
         isSyncing = False, isRealtimeConnected = False,
         unsyncedChanges = or_default (st_UNSYNCED_CHANGES st) False,
         activeWalletId = st_ACTIVE_WALLET_ID st, syncStatusMessage = None\<rparr>,
      notification = None, sessionVersion = 0, isBackingUpRef = False,
      isLoggingOutRef = False, storage = st, outstanding = []\<rparr>"

text \<open>The persistence effects (\<^verbatim>\<open>useEffect(() => storage.set(KEY, cell), [cell])\<close>), run
  after a render: each key receives the value of its cell.\<close>

definition persist :: "app \<Rightarrow> app" where
  "persist s =
     s\<lparr>storage := (storage s)
        \<lparr>st_TRANSACTIONS := Some (transactions s),
         st_ACCOUNTS := Some (accounts s),
         st_CATEGORIES := Some (categories s),
         st_BUDGET := Some (budget s),
         st_CATEGORY_BUDGETS := Some (categoryBudgets s),
         st_SETTINGS := Some (settings s),
         st_WALLETS_LIST := Some (wallets s),
         st_ACTIVE_WALLET_ID := activeWalletId (syncState s),
         st_UNSYNCED_CHANGES := Some (unsyncedChanges (syncState s)),
         st_LAST_SYNC := lastSync (syncState s)\<rparr>\<rparr>"

definition handleOnline :: "app \<Rightarrow> app" where
  "handleOnline s = setSyncState (\<lambda>prev. prev\<lparr>isOnline := True\<rparr>) s"

definition handleOffline :: "app \<Rightarrow> app" where
  "handleOffline s = setSyncState (\<lambda>prev. prev\<lparr>isOnline := False, isRealtimeConnected := False\<rparr>) s"

text \<open>The timer that \<^verbatim>\<open>showNotification\<close> starts: after five seconds the notification is
  removed if it is still the one with that id.\<close>

definition notificationTimeout :: "nat \<Rightarrow> app \<Rightarrow> app" where
  "notificationTimeout i s =
     (case notification s of
        None \<Rightarrow> s
      | Some n \<Rightarrow> if id_n n = i then s\<lparr>notification := None\<rparr> else s)"

definition updateUserProfilePhoto :: "string \<Rightarrow> app \<Rightarrow> app" where
  "updateUserProfilePhoto url s =
     setSyncState (\<lambda>prev. case user prev of
                            Some u \<Rightarrow> prev\<lparr>user := Some (u\<lparr>photoURL := Some url\<rparr>)\<rparr>
                          | None \<Rightarrow> prev) s"

subsection \<open>Realtime listener\<close>

text \<open>The effect body when no channel is to be opened; otherwise a channel is opened and
  the state is not touched.\<close>

definition realtime_setup :: "app \<Rightarrow> app" where
  "realtime_setup s =
     (if user (syncState s) = None \<or> \<not> isLoggedIn (syncState s)
         \<or> settings s ''enableRealtime'' = Some (JBool False) \<or> isLoggingOutRef s
      then setSyncState (\<lambda>prev. prev\<lparr>isRealtimeConnected := False\<rparr>) s
      else s)"

text \<open>A change on the wallet channel; \<open>newRow\<close> is \<^verbatim>\<open>payload.new\<close> (possibly empty) reduced
  to its \<^verbatim>\<open>updated_by\<close>.\<close>

definition realtime_wallet_change :: "nat \<Rightarrow> string option option \<Rightarrow> app \<Rightarrow> app" where
  "realtime_wallet_change now newRow s =
     (case newRow of
        None \<Rightarrow> s
      | Some updated_by \<Rightarrow>
          if updated_by \<noteq> map_option id_user (user (syncState s))
          then showNotification now ''Shared wallet updated'' info
                 (setSyncState (\<lambda>prev. prev\<lparr>pendingRestoreAvailable := True,
                                             syncStatusMessage := Some ''New wallet data''\<rparr>) s)
          else s)"

text \<open>A change on the user's backup channel; \<open>updated_at\<close> is \<^verbatim>\<open>payload.new.updated_at\<close>.\<close>

definition realtime_backup_change :: "(string \<Rightarrow> int) \<Rightarrow> nat \<Rightarrow> string \<Rightarrow> app \<Rightarrow> app" where
  "realtime_backup_change date_ms now updated_at s =
     (let remoteTime = date_ms updated_at;
          localTime = (case lastSync (syncState s) of
                         None \<Rightarrow> 0
                       | Some l \<Rightarrow> if l \<noteq> [] then date_ms l else 0)
      in if remoteTime > localTime + 2000
         then showNotification now ''New data received from cloud'' info s
         else s)"

definition realtime_subscribed :: "app \<Rightarrow> app" where
  "realtime_subscribed s = setSyncState (\<lambda>prev. prev\<lparr>isRealtimeConnected := True\<rparr>) s"

definition realtime_cleanup :: "app \<Rightarrow> app" where
  "realtime_cleanup s = setSyncState (\<lambda>prev. prev\<lparr>isRealtimeConnected := False\<rparr>) s"

subsection \<open>Wallet switching\<close>

text \<open>The composite storage key of a context.\<close>

definition ctx_key :: "string option \<Rightarrow> string" where
  "ctx_key walletId =
     (case walletId of
        None \<Rightarrow> ''sb_personal_data''
      | Some w \<Rightarrow> if w \<noteq> [] then ''sb_wallet_'' @ w @ ''_data'' else ''sb_personal_data'')"

text \<open>\<open>cl\<close> is the render whose cells the function closes over; the write goes to the
  storage of the current state.\<close>

definition saveCurrentContextToStorage :: "app \<Rightarrow> string option \<Rightarrow> app \<Rightarrow> app" where
  "saveCurrentContextToStorage cl walletId s =
     (let data = \<lparr>d_transactions = Some (transactions cl), d_accounts = Some (accounts cl),
                  d_categories = Some (categories cl), d_budget = Some (budget cl),
                  d_category_budgets = Some (categoryBudgets cl),
                  d_settings = Some (settings cl)\<rparr>;
          key = ctx_key walletId
      in s\<lparr>storage := (storage s)\<lparr>st_composite := (st_composite (storage s))(key \<mapsto> data)\<rparr>\<rparr>)"

text \<open>The six setters that install a snapshot read from storage or from the cloud:
  the same lines in \<^verbatim>\<open>loadContextFromStorage\<close> and in \<^verbatim>\<open>switchWallet\<close>.\<close>

definition install_data :: "constants \<Rightarrow> snapshot_data \<Rightarrow> app \<Rightarrow> app" where
  "install_data K d s =
     s\<lparr>transactions := or_default (d_transactions d) [],
       accounts := or_default (d_accounts d) (INITIAL_ACCOUNTS K),
       categories := or_default (d_categories d) (INITIAL_CATEGORIES K),
       budget := or_zero (d_budget d),
       categoryBudgets := or_default (d_category_budgets d) [],
       settings := spread_opt (settings s) (d_settings d)\<rparr>"

definition loadContextFromStorage :: "constants \<Rightarrow> string option \<Rightarrow> app \<Rightarrow> app" where
  "loadContextFromStorage K walletId s =
     (case st_composite (storage s) (ctx_key walletId) of
        Some d \<Rightarrow> install_data K d s
      | None \<Rightarrow>
          if truthy walletId
          then s\<lparr>transactions := [], accounts := INITIAL_ACCOUNTS K,
                 categories := INITIAL_CATEGORIES K, budget := 0, categoryBudgets := [],
                 settings := DEFAULT_SETTINGS K\<rparr>
          else s\<lparr>transactions := or_default (st_TRANSACTIONS (storage s)) [],
                 accounts := or_default (st_ACCOUNTS (storage s)) (INITIAL_ACCOUNTS K),
                 categories := or_default (st_CATEGORIES (storage s)) (INITIAL_CATEGORIES K),
                 budget := or_default (st_BUDGET (storage s)) 0,
                 categoryBudgets := or_default (st_CATEGORY_BUDGETS (storage s)) [],
                 settings := DEFAULT_SETTINGS K
                               ++ or_default (st_SETTINGS (storage s)) (DEFAULT_SETTINGS K)\<rparr>)"

text \<open>The answer of a network call: it threw, or it returned a value.\<close>

datatype 'a fetched = Threw string | Returned 'a

definition switched_message :: "string option \<Rightarrow> string" where
  "switched_message walletId =
     (if truthy walletId then ''Switched to Shared Wallet'' else ''Switched to Personal Space'')"

text \<open>\<^verbatim>\<open>switchWallet\<close> up to its \<^verbatim>\<open>await\<close>. The result says whether
  \<^verbatim>\<open>cloudDrive.getWalletData(walletId)\<close> is awaited; if not, the function ends with its
  notification.\<close>

definition switchWallet_from ::
  "app \<Rightarrow> constants \<Rightarrow> nat \<Rightarrow> string option \<Rightarrow> app \<Rightarrow> bool \<times> app" where
  "switchWallet_from cl K now walletId s =
     (let s1 = saveCurrentContextToStorage cl (activeWalletId (syncState cl)) s;
          s2 = setSyncState (\<lambda>prev. prev\<lparr>activeWalletId := walletId, unsyncedChanges := False\<rparr>) s1;
          s3 = loadContextFromStorage K walletId s2
      in if truthy walletId \<and> isOnline (syncState cl)
         then (True, s3)
         else (False, showNotification now (switched_message walletId) success s3))"

definition switchWallet :: "constants \<Rightarrow> nat \<Rightarrow> string option \<Rightarrow> app \<Rightarrow> bool \<times> app" where
  "switchWallet K now walletId s = switchWallet_from s K now walletId s"

text \<open>\<^verbatim>\<open>switchWallet\<close> after \<^verbatim>\<open>cloudDrive.getWalletData\<close> has answered.\<close>

definition switchWallet_fetched ::
  "constants \<Rightarrow> nat \<Rightarrow> string option \<Rightarrow> snapshot_data option fetched \<Rightarrow> app \<Rightarrow> app" where
  "switchWallet_fetched K now walletId ans s =
     showNotification now (switched_message walletId) success
       (case ans of
          Returned (Some remoteData) \<Rightarrow> install_data K remoteData s
        | Returned None \<Rightarrow> s
        | Threw e \<Rightarrow> s)"

text \<open>\<^verbatim>\<open>createWallet\<close> after \<^verbatim>\<open>cloudDrive.createWallet\<close> has answered (it is called only when
  a user is present); \<open>cl\<close> is the render in which \<^verbatim>\<open>createWallet\<close> was called.\<close>

definition createWallet_answered ::
  "app \<Rightarrow> constants \<Rightarrow> nat \<Rightarrow> wallet fetched \<Rightarrow> app \<Rightarrow> bool \<times> app" where
  "createWallet_answered cl K now ans s =
     (case ans of
        Returned newWallet \<Rightarrow>
          switchWallet_from cl K now (Some (id_wallet newWallet))
            (s\<lparr>wallets := wallets s @ [newWallet]\<rparr>)
      | Threw e \<Rightarrow> (False, showNotification now e error s))"

definition refreshWallets_answered :: "wallet list fetched \<Rightarrow> app \<Rightarrow> app" where
  "refreshWallets_answered ans s =
     (case ans of Returned list \<Rightarrow> s\<lparr>wallets := list\<rparr> | Threw e \<Rightarrow> s)"

text \<open>\<^verbatim>\<open>deleteWallet\<close> after \<^verbatim>\<open>cloudDrive.deleteWallet\<close> has answered, when the deleted wallet
  is not the active one of the render \<open>cl\<close>, or is the active one and the switch to the
  personal context (which awaits nothing) has run.\<close>

definition deleteWallet_answered ::
  "app \<Rightarrow> constants \<Rightarrow> nat \<Rightarrow> string \<Rightarrow> unit fetched \<Rightarrow> app \<Rightarrow> app" where
  "deleteWallet_answered cl K now walletId ans s =
     (case ans of
        Returned u \<Rightarrow>
          (let s1 = s\<lparr>wallets := filter (\<lambda>w. id_wallet w \<noteq> walletId) (wallets s)\<rparr>;
               s2 = (if activeWalletId (syncState cl) = Some walletId
                     then snd (switchWallet_from cl K now None s1) else s1)
           in showNotification now ''Wallet deleted successfully'' success s2)
      | Threw e \<Rightarrow> showNotification now e error s)"

text \<open>\<^verbatim>\<open>resetPreferences\<close>: the storage is cleared and the page reloads, so the provider
  starts again over the empty storage.\<close>

definition resetPreferences :: "constants \<Rightarrow> bool \<Rightarrow> app \<Rightarrow> app" where
  "resetPreferences K online s = initial_app K online empty_store"

subsection \<open>Backup (push)\<close>

text \<open>The value a push resolves to: \<^verbatim>\<open>{ skipped, timestamp? }\<close>.\<close>

record backup_res =
  skipped :: bool
  timestamp :: "string option"

text \<open>How a call of \<^verbatim>\<open>backupUserData\<close> stands when control leaves it: it has returned a
  value, it has thrown, or it awaits the answer to a push request.\<close>

datatype backup_outcome = Result backup_res | Raised string | Awaiting push_request

text \<open>The \<^verbatim>\<open>finally\<close> block.\<close>

definition backup_finally :: "app \<Rightarrow> app" where
  "backup_finally s = setSyncState (\<lambda>p. p\<lparr>isSyncing := False\<rparr>) (s\<lparr>isBackingUpRef := False\<rparr>)"

definition current_data :: "app \<Rightarrow> snapshot_data" where
  "current_data s =
     \<lparr>d_transactions = Some (transactions s), d_accounts = Some (accounts s),
      d_categories = Some (categories s), d_budget = Some (budget s),
      d_category_budgets = Some (categoryBudgets s), d_settings = Some (settings s)\<rparr>"

text \<open>\<^verbatim>\<open>backupUserData\<close> up to its \<^verbatim>\<open>await\<close>. The guard on \<^verbatim>\<open>isBackingUpRef\<close> stands before
  the \<^verbatim>\<open>try\<close>, so the \<^verbatim>\<open>finally\<close> block does not run for a skipped call.\<close>

definition backupUserData :: "snapshot_data option \<Rightarrow> app \<Rightarrow> backup_outcome \<times> app" where
  "backupUserData custom s =
     (if isBackingUpRef s then (Result \<lparr>skipped = True, timestamp = None\<rparr>, s)
      else
        (let s1 = setSyncState (\<lambda>p. p\<lparr>isSyncing := True\<rparr>) (s\<lparr>isBackingUpRef := True\<rparr>)
         in case user (syncState s) of
              None \<Rightarrow> (Result \<lparr>skipped = True, timestamp = None\<rparr>, backup_finally s1)
            | Some u \<Rightarrow>
                (let data = or_default custom (current_data s);
                     req = (case activeWalletId (syncState s) of
                              None \<Rightarrow> BackupUserData (id_user u) data
                            | Some w \<Rightarrow> if w \<noteq> [] then SyncWalletData w (id_user u) data
                                        else BackupUserData (id_user u) data)
                 in (Awaiting req, s1\<lparr>outstanding := outstanding s1 @ [req]\<rparr>))))"

text \<open>\<^verbatim>\<open>backupUserData\<close> after the push \<open>req\<close> has been answered. \<open>iso1\<close> and \<open>iso2\<close> are the
  two readings of the clock in the wallet branch.\<close>

definition backupUserData_answered ::
  "push_request \<Rightarrow> string \<Rightarrow> string \<Rightarrow> backup_res fetched \<Rightarrow> app \<Rightarrow> backup_outcome \<times> app" where
  "backupUserData_answered req iso1 iso2 ans s =
     (let s0 = s\<lparr>outstanding := remove1 req (outstanding s)\<rparr>
      in case ans of
           Threw err \<Rightarrow> (Raised err, backup_finally s0)
         | Returned res \<Rightarrow>
             (case req of
                SyncWalletData w u d \<Rightarrow>
                  (Result \<lparr>skipped = False, timestamp = Some iso2\<rparr>,
                   backup_finally
                     (setSyncState (\<lambda>p. p\<lparr>unsyncedChanges := False, lastSync := Some iso1\<rparr>) s0))
              | BackupUserData u d \<Rightarrow>
                  (Result res,
                   backup_finally
                     (setSyncState (\<lambda>p. p\<lparr>lastSync := timestamp res, unsyncedChanges := False\<rparr>) s0))))"

text \<open>The decision of the auto-backup timer (\<^verbatim>\<open>checkAutoBackup\<close>): whether it calls
  \<^verbatim>\<open>backupUserData()\<close>.\<close>

definition checkAutoBackup :: "(string \<Rightarrow> int) \<Rightarrow> int \<Rightarrow> app \<Rightarrow> bool" where
  "checkAutoBackup date_ms now s =
     (if \<not> isLoggedIn (syncState s) \<or> user (syncState s) = None \<or> \<not> isOnline (syncState s)
         \<or> isLoggingOutRef s then False
      else if isBackingUpRef s then False
      else if unsyncedChanges (syncState s) then True
      else if settings s ''autoBackup'' = Some (JStr ''off'') then False
      else case lastSync (syncState s) of
             None \<Rightarrow> True
           | Some l \<Rightarrow>
               if l = [] then True
               else (let last = date_ms l;
                         hoursDiff = real_of_int (now - last) / (1000 * 60 * 60);
                         threshold = (if settings s ''autoBackup'' = Some (JStr ''daily'')
                                      then 24 else 168)
                     in hoursDiff \<ge> threshold))"

subsection \<open>Restore (pull)\<close>

datatype strategy = Merge | Replace | Skip

text \<open>What \<^verbatim>\<open>cloudDrive.restoreBackup\<close> returns: \<^verbatim>\<open>{ data, metadata?: { timestamp } }\<close>.\<close>

record backup_result =
  data_b :: "snapshot_data option"
  metadata_timestamp :: "string option"

datatype restore_call = GetWalletData string | RestoreBackup string

datatype restore_outcome = Finished bool | AwaitingRestore restore_call

datatype restore_answer =
  WalletAnswer "snapshot_data option fetched" string
| BackupAnswer "backup_result option fetched"

text \<open>\<^verbatim>\<open>restoreBackup\<close> up to its \<^verbatim>\<open>await\<close>.\<close>

definition restoreBackup :: "strategy \<Rightarrow> app \<Rightarrow> restore_outcome \<times> app" where
  "restoreBackup strat s =
     (case user (syncState s) of
        None \<Rightarrow> (Finished False, s)
      | Some u \<Rightarrow>
          if strat = Skip
          then (Finished True, setSyncState (\<lambda>p. p\<lparr>pendingRestoreAvailable := False\<rparr>) s)
          else if truthy (activeWalletId (syncState s))
          then (AwaitingRestore (GetWalletData (or_default (activeWalletId (syncState s)) [])), s)
          else (AwaitingRestore (RestoreBackup (id_user u)), s))"

text \<open>The \<^verbatim>\<open>Map\<close> of the merge branch, as the list of its entries in insertion order:
  \<^verbatim>\<open>txMap.set(k, v)\<close> is \<open>AList.update k v\<close> (an existing key keeps its place and takes the new
  value, a new key goes to the end), \<^verbatim>\<open>txMap.has(k)\<close> is membership among the keys.\<close>

definition set_cloud :: "transaction list \<Rightarrow> (string \<times> transaction) list" where
  "set_cloud cloudTxs = foldl (\<lambda>txMap t. AList.update (id_tx t) t txMap) [] cloudTxs"

definition set_local ::
  "(string \<times> transaction) list \<Rightarrow> transaction list \<Rightarrow> (string \<times> transaction) list" where
  "set_local txMap0 prevTxs =
     foldl (\<lambda>txMap t. if id_tx t \<notin> fst ` set txMap then AList.update (id_tx t) t txMap else txMap)
           txMap0 prevTxs"

text \<open>The comparator \<^verbatim>\<open>(a, b) => new Date(b.date).getTime() - new Date(a.date).getTime()\<close>.
  When one of the two dates is missing or is no date, the difference is \<^verbatim>\<open>NaN\<close>, which
  \<^verbatim>\<open>Array.prototype.sort\<close> reads as \<open>0\<close>: the two entries count as equal.\<close>

definition date_compare ::
  "(string \<Rightarrow> int) \<Rightarrow> (string \<Rightarrow> bool) \<Rightarrow> transaction \<Rightarrow> transaction \<Rightarrow> int" where
  "date_compare date_ms valid_date a b =
     (if valid_date (date a) \<and> valid_date (date b) then date_ms (date b) - date_ms (date a)
      else 0)"

text \<open>\<^verbatim>\<open>Array.prototype.sort(cmp)\<close> as a stable insertion sort: the entries are taken from
  left to right, and each moves towards the front past the entries \<open>y\<close> with
  \<open>cmp x y < 0\<close>, stopping at the first one it does not precede. \<open>sift\<close> inserts into the
  sorted prefix, held last entry first. Where the comparator is a consistent order every
  stable sort returns this list; where it is not (a date that is no date), the
  language leaves the order to the engine, and this is the order in which no entry
  moves past one it compares equal to.\<close>

fun sift :: "('a \<Rightarrow> 'a \<Rightarrow> int) \<Rightarrow> 'a \<Rightarrow> 'a list \<Rightarrow> 'a list" where
  "sift cmp x [] = [x]"
| "sift cmp x (y # ys) = (if cmp x y < 0 then y # sift cmp x ys else x # y # ys)"

definition array_sort :: "('a \<Rightarrow> 'a \<Rightarrow> int) \<Rightarrow> 'a list \<Rightarrow> 'a list" where
  "array_sort cmp xs = rev (foldl (\<lambda>prefix x. sift cmp x prefix) [] xs)"

text \<open>The updater passed to \<^verbatim>\<open>setTransactions\<close> in the merge branch.\<close>

definition merge_transactions ::
  "(string \<Rightarrow> int) \<Rightarrow> (string \<Rightarrow> bool) \<Rightarrow> transaction list \<Rightarrow> transaction list
     \<Rightarrow> transaction list" where
  "merge_transactions date_ms valid_date cloudTxs prevTxs =
     array_sort (date_compare date_ms valid_date)
       (map snd (set_local (set_cloud cloudTxs) prevTxs))"

text \<open>\<^verbatim>\<open>restoreBackup\<close> after the cloud has answered.\<close>

definition restoreBackup_answered ::
  "constants \<Rightarrow> (string \<Rightarrow> int) \<Rightarrow> (string \<Rightarrow> bool) \<Rightarrow> strategy \<Rightarrow> restore_answer \<Rightarrow> app
     \<Rightarrow> bool \<times> app" where
  "restoreBackup_answered K date_ms valid_date strat ans s =
     (case (case ans of
              WalletAnswer (Threw e) nowIso \<Rightarrow> None
            | WalletAnswer (Returned rd) nowIso \<Rightarrow> Some (rd, Some nowIso)
            | BackupAnswer (Threw e) \<Rightarrow> None
            | BackupAnswer (Returned None) \<Rightarrow> Some (None, None)
            | BackupAnswer (Returned (Some backupResult)) \<Rightarrow>
                Some (data_b backupResult, metadata_timestamp backupResult)) of
        None \<Rightarrow> (False, s)
      | Some (None, remoteTimestamp) \<Rightarrow> (False, s)
      | Some (Some remoteData, remoteTimestamp) \<Rightarrow>
          (let cloudTxs = or_default (d_transactions remoteData) [];
               cloudAccounts = or_default (d_accounts remoteData) (INITIAL_ACCOUNTS K);
               cloudCats = or_default (d_categories remoteData) (INITIAL_CATEGORIES K);
               cloudBudget = or_zero (d_budget remoteData);
               cloudSettings = or_default (d_settings remoteData) (DEFAULT_SETTINGS K);
               cloudCatBudgets = or_default (d_category_budgets remoteData) [];
               s1 = (if strat = Replace
                     then s\<lparr>transactions := cloudTxs, accounts := cloudAccounts,
                            categories := cloudCats, budget := cloudBudget,
                            categoryBudgets := cloudCatBudgets, settings := cloudSettings\<rparr>
                     else s\<lparr>transactions :=
                              merge_transactions date_ms valid_date cloudTxs (transactions s),
                            accounts := cloudAccounts, categories := cloudCats,
                            settings := settings s ++ cloudSettings,
                            budget := cloudBudget, categoryBudgets := cloudCatBudgets\<rparr>);
               s2 = (if truthy remoteTimestamp
                     then setSyncState (\<lambda>p. p\<lparr>pendingRestoreAvailable := False,
                                                lastSync := remoteTimestamp\<rparr>) s1
                     else setSyncState (\<lambda>p. p\<lparr>pendingRestoreAvailable := False\<rparr>) s1)
           in (True, s2)))"

subsection \<open>Authentication handler and logout\<close>

text \<open>The fields of the provider's user object that the handler reads.\<close>

record auth_user =
  id_au :: string
  email_au :: "string option"
  full_name :: "string option"
  name_au :: "string option"
  created_at :: string
  email_confirmed_at :: "string option"
  photo_url :: "string option"
  avatar_url :: "string option"

definition profile_of :: "auth_user \<Rightarrow> userProfile" where
  "profile_of u =
     \<lparr>id_user = id_au u,
      email = or_null (email_au u),
      name_user = (if truthy (full_name u) then or_default (full_name u) []
                   else if truthy (name_au u) then or_default (name_au u) [] else ''User''),
      createdAt = created_at u,
      emailVerified = truthy (email_confirmed_at u),
      photoURL = (if truthy (photo_url u) then photo_url u else or_null (avatar_url u))\<rparr>"

text \<open>What the handler awaits when control leaves it, with the session version it
  captured (\<^verbatim>\<open>currentVersion\<close>) and the user id.\<close>

datatype auth_outcome = AuthDone | AwaitWallets nat string | AwaitBackup nat string

text \<open>The test \<^verbatim>\<open>if (!storage.get(STORAGE_KEYS.ACTIVE_WALLET_ID, null))\<close> and the call it
  guards.\<close>

definition auth_reconcile :: "nat \<Rightarrow> string \<Rightarrow> app \<Rightarrow> auth_outcome \<times> app" where
  "auth_reconcile currentVersion uid s =
     (if \<not> truthy (st_ACTIVE_WALLET_ID (storage s)) then (AwaitBackup currentVersion uid, s)
      else (AuthDone, s))"

text \<open>\<^verbatim>\<open>handleAuthStateChange\<close> up to its first \<^verbatim>\<open>await\<close>; \<open>online\<close> is
  \<^verbatim>\<open>navigator.onLine\<close>.\<close>

definition handleAuthStateChange :: "bool \<Rightarrow> auth_user option \<Rightarrow> app \<Rightarrow> auth_outcome \<times> app" where
  "handleAuthStateChange online usr s =
     (if isLoggingOutRef s then (AuthDone, s)
      else
        (let currentVersion = sessionVersion s + 1;
             s1 = s\<lparr>sessionVersion := currentVersion\<rparr>
         in case usr of
              None \<Rightarrow>
                (AuthDone,
                 (setSyncState (\<lambda>prev. prev\<lparr>isLoggedIn := False, user := None,
                                            isRealtimeConnected := False,
                                            unsyncedChanges := False, activeWalletId := None,
                                            lastSync := None\<rparr>) s1)\<lparr>wallets := []\<rparr>)
            | Some u \<Rightarrow>
                (let s2 = setSyncState (\<lambda>prev. prev\<lparr>isLoggedIn := True,
                                                     user := Some (profile_of u)\<rparr>) s1
                 in if online then (AwaitWallets currentVersion (id_au u), s2)
                    else auth_reconcile currentVersion (id_au u) s2)))"

text \<open>The handler after \<^verbatim>\<open>cloudDrive.getMyWallets\<close> has answered.\<close>

definition handleAuthStateChange_wallets ::
  "nat \<Rightarrow> string \<Rightarrow> wallet list fetched \<Rightarrow> app \<Rightarrow> auth_outcome \<times> app" where
  "handleAuthStateChange_wallets currentVersion uid ans s =
     (case ans of
        Returned walletsList \<Rightarrow>
          if currentVersion \<noteq> sessionVersion s then (AuthDone, s)
          else auth_reconcile currentVersion uid (s\<lparr>wallets := walletsList\<rparr>)
      | Threw e \<Rightarrow> auth_reconcile currentVersion uid s)"

text \<open>The handler after \<^verbatim>\<open>cloudDrive.restoreBackup\<close> has answered.\<close>

definition handleAuthStateChange_backup ::
  "(string \<Rightarrow> int) \<Rightarrow> nat \<Rightarrow> backup_result option fetched \<Rightarrow> app \<Rightarrow> app" where
  "handleAuthStateChange_backup date_ms currentVersion ans s =
     (case ans of
        Threw e \<Rightarrow> s
      | Returned result \<Rightarrow>
          if currentVersion \<noteq> sessionVersion s then s
          else (case result of
                  None \<Rightarrow> s
                | Some r \<Rightarrow>
                    (case data_b r of
                       None \<Rightarrow> s
                     | Some d \<Rightarrow>
                         (let cloudTimestamp = metadata_timestamp r;
                              localLastSync = st_LAST_SYNC (storage s);
                              isNewer = (\<not> truthy localLastSync \<or>
                                         (truthy cloudTimestamp \<and>
                                          date_ms (or_default cloudTimestamp [])
                                            > date_ms (or_default localLastSync []) + 1000))
                          in if isNewer
                             then setSyncState (\<lambda>prev. prev\<lparr>lastSync := or_null cloudTimestamp,
                                                             pendingRestoreAvailable := True\<rparr>) s
                             else setSyncState (\<lambda>prev. prev\<lparr>lastSync := or_null cloudTimestamp,
                                                             pendingRestoreAvailable := False\<rparr>) s))))"

text \<open>\<^verbatim>\<open>logout\<close> up to \<^verbatim>\<open>await supabase.auth.signOut()\<close>; the result says whether the sign-out
  is awaited.\<close>

definition logout :: "constants \<Rightarrow> app \<Rightarrow> bool \<times> app" where
  "logout K s =
     (if isLoggingOutRef s then (False, s)
      else
        (let s1 = s\<lparr>isLoggingOutRef := True\<rparr>;
             s2 = (if truthy (activeWalletId (syncState s))
                   then loadContextFromStorage K None
                          (saveCurrentContextToStorage s (activeWalletId (syncState s)) s1)
                   else s1)
         in (True, s2)))"

text \<open>\<^verbatim>\<open>logout\<close> after the sign-out has settled (its error is swallowed).\<close>

definition logout_signedOut :: "nat \<Rightarrow> app \<Rightarrow> app" where
  "logout_signedOut now s =
     (let s1 = setSyncState (\<lambda>prev. prev\<lparr>isLoggedIn := False, user := None,
                                          activeWalletId := None, unsyncedChanges := False,
                                          isRealtimeConnected := False, lastSync := None\<rparr>) s;
          s2 = s1\<lparr>wallets := []\<rparr>;
          s3 = showNotification now ''Logged out - Switched to Personal Wallet'' success s2
      in s3\<lparr>isLoggingOutRef := False\<rparr>)"

subsection \<open>The state manager as a transition system\<close>

text \<open>One event per piece of code that runs to completion without giving up control: a
  call of an operation up to its first \<^verbatim>\<open>await\<close>, or the resumption of an operation when the
  network answers. Events carry the arguments of the call, the answer of the network
  and the platform values read.\<close>

datatype event =
  Mutation mutation
| Persist
| HandleOnline
| HandleOffline
| ShowNotification nat string notification_type
| NotificationTimeout nat
| UpdateUserProfilePhoto string
| RealtimeSetup
| RealtimeWalletChange nat "string option option"
| RealtimeBackupChange nat string
| RealtimeSubscribed
| RealtimeCleanup
| SwitchWallet nat "string option"
| SwitchWalletFetched nat "string option" "snapshot_data option fetched"
| CreateWalletAnswered app nat "wallet fetched"
| RefreshWalletsAnswered "wallet list fetched"
| DeleteWalletAnswered app nat string "unit fetched"
| ResetPreferences bool
| BackupUserDataCall "snapshot_data option"
| BackupUserDataAnswered push_request string string "backup_res fetched"
| RestoreBackupCall strategy
| RestoreBackupAnswered "string \<Rightarrow> bool" strategy restore_answer
| HandleAuthStateChange bool "auth_user option"
| AuthWalletsAnswered nat string "wallet list fetched"
| AuthBackupAnswered nat "backup_result option fetched"
| Logout
| LogoutSignedOut nat

fun step :: "constants \<Rightarrow> (string \<Rightarrow> int) \<Rightarrow> event \<Rightarrow> app \<Rightarrow> app" where
  "step K date_ms (Mutation m) s = mutate m s"
| "step K date_ms Persist s = persist s"
| "step K date_ms HandleOnline s = handleOnline s"
| "step K date_ms HandleOffline s = handleOffline s"
| "step K date_ms (ShowNotification now msg ty) s = showNotification now msg ty s"
| "step K date_ms (NotificationTimeout i) s = notificationTimeout i s"
| "step K date_ms (UpdateUserProfilePhoto url) s = updateUserProfilePhoto url s"
| "step K date_ms RealtimeSetup s = realtime_setup s"
| "step K date_ms (RealtimeWalletChange now newRow) s = realtime_wallet_change now newRow s"
| "step K date_ms (RealtimeBackupChange now updated_at) s =
     realtime_backup_change date_ms now updated_at s"
| "step K date_ms RealtimeSubscribed s = realtime_subscribed s"
| "step K date_ms RealtimeCleanup s = realtime_cleanup s"
| "step K date_ms (SwitchWallet now walletId) s = snd (switchWallet K now walletId s)"
| "step K date_ms (SwitchWalletFetched now walletId ans) s = switchWallet_fetched K now walletId ans s"
| "step K date_ms (CreateWalletAnswered cl now ans) s = snd (createWallet_answered cl K now ans s)"
| "step K date_ms (RefreshWalletsAnswered ans) s = refreshWallets_answered ans s"
| "step K date_ms (DeleteWalletAnswered cl now walletId ans) s =
     deleteWallet_answered cl K now walletId ans s"
| "step K date_ms (ResetPreferences online) s = resetPreferences K online s"
| "step K date_ms (BackupUserDataCall custom) s = snd (backupUserData custom s)"
| "step K date_ms (BackupUserDataAnswered req iso1 iso2 ans) s =
     snd (backupUserData_answered req iso1 iso2 ans s)"
| "step K date_ms (RestoreBackupCall strat) s = snd (restoreBackup strat s)"
| "step K date_ms (RestoreBackupAnswered valid_date strat ans) s =
     snd (restoreBackup_answered K date_ms valid_date strat ans s)"
| "step K date_ms (HandleAuthStateChange online usr) s = snd (handleAuthStateChange online usr s)"
| "step K date_ms (AuthWalletsAnswered v uid ans) s = snd (handleAuthStateChange_wallets v uid ans s)"
| "step K date_ms (AuthBackupAnswered v ans) s = handleAuthStateChange_backup date_ms v ans s"
| "step K date_ms Logout s = snd (logout K s)"
| "step K date_ms (LogoutSignedOut now) s = logout_signedOut now s"

text \<open>The network answers only what it was asked: a push is answered only while it is
  outstanding, and the sign-out of \<^verbatim>\<open>logout\<close> settles only while a logout is running.\<close>

fun enabled :: "event \<Rightarrow> app \<Rightarrow> bool" where
  "enabled (BackupUserDataAnswered req iso1 iso2 ans) s = (req \<in> set (outstanding s))"
| "enabled (LogoutSignedOut now) s = isLoggingOutRef s"
| "enabled ev s = True"

definition run :: "constants \<Rightarrow> (string \<Rightarrow> int) \<Rightarrow> event list \<Rightarrow> app \<Rightarrow> app" where
  "run K date_ms evs s = foldl (\<lambda>st ev. step K date_ms ev st) s evs"

text \<open>The states of the executions: the provider starts over some storage, then events
  happen one after the other.\<close>

inductive reachable :: "constants \<Rightarrow> (string \<Rightarrow> int) \<Rightarrow> app \<Rightarrow> bool"
  for K :: constants and date_ms :: "string \<Rightarrow> int" where
  start: "reachable K date_ms (initial_app K online st)"
| after: "reachable K date_ms s \<Longrightarrow> enabled ev s \<Longrightarrow> reachable K date_ms (step K date_ms ev s)"

text \<open>The events by which the source clears the dirty flag. The answer to
  \<^verbatim>\<open>deleteWallet\<close> is one only when the deleted wallet is the active one of the render in
  which \<^verbatim>\<open>deleteWallet\<close> was called (it then switches to the personal context).\<close>

fun clears_dirty :: "event \<Rightarrow> bool" where
  "clears_dirty (BackupUserDataAnswered req iso1 iso2 (Returned res)) = True"
| "clears_dirty (SwitchWallet now walletId) = True"
| "clears_dirty (CreateWalletAnswered cl now (Returned w)) = True"
| "clears_dirty (DeleteWalletAnswered cl now walletId (Returned u)) =
     (activeWalletId (syncState cl) = Some walletId)"
| "clears_dirty (HandleAuthStateChange online None) = True"
| "clears_dirty (LogoutSignedOut now) = True"
| "clears_dirty (ResetPreferences online) = True"
| "clears_dirty ev = False"

fun is_reload :: "event \<Rightarrow> bool" where
  "is_reload (ResetPreferences online) = True"
| "is_reload ev = False"

subsection \<open>Concrete values for the examples\<close>

definition K0 :: constants where
  "K0 = \<lparr>INITIAL_ACCOUNTS = [\<lparr>id_acc = ''acc_cash'', name_acc = ''Cash'', rest_acc = []\<rparr>],
         INITIAL_CATEGORIES = [\<lparr>id_cat = ''cat_food'', name_cat = ''Food'', rest_cat = []\<rparr>],
         DEFAULT_SETTINGS = [''currency'' \<mapsto> JStr ''$'', ''autoBackup'' \<mapsto> JStr ''daily'']\<rparr>"

definition tx0 :: transaction where
  "tx0 = \<lparr>id_tx = [], type_tx = expense, amount = 0, date = [], note_tx = None,
          accountId = None, fromAccountId = None, toAccountId = None, categoryId = None,
          isPendingSync = False\<rparr>"

text \<open>A clock for the examples: the millisecond count is written after the \<^verbatim>\<open>T\<close>.\<close>

definition ms0 :: "string \<Rightarrow> int" where
  "ms0 d = (if d = ''T1000'' then 1000 else if d = ''T1500'' then 1500
            else if d = ''T2000'' then 2000 else if d = ''T2500'' then 2500
            else if d = ''T3000'' then 3000 else 0)"

text \<open>The strings that the example clock knows are the dates; any other string is none.\<close>

definition valid0 :: "string \<Rightarrow> bool" where
  "valid0 d = (d \<in> set [''T1000'', ''T1500'', ''T2000'', ''T2500'', ''T3000''])"

definition au0 :: auth_user where
  "au0 = \<lparr>id_au = ''u1'', email_au = Some ''a@b.c'', full_name = None, name_au = None,
          created_at = ''2024-01-01T00:00:00.000Z'', email_confirmed_at = None,
          photo_url = None, avatar_url = None\<rparr>"

text \<open>A fresh, offline start over an empty storage.\<close>

definition app0 :: app where
  "app0 = initial_app K0 False empty_store"

text \<open>The device comes online and a user logs in; a budget is set; a push is started.\<close>

definition app_login :: app where
  "app_login = step K0 ms0 (HandleAuthStateChange True (Some au0)) (step K0 ms0 HandleOnline app0)"

definition app_dirty :: app where
  "app_dirty = step K0 ms0 (Mutation (UpdateBudget 5)) app_login"

definition app_pushing :: app where
  "app_pushing = step K0 ms0 (BackupUserDataCall None) app_dirty"

text \<open>Three local and remote transactions: \<open>ex_t2'\<close> is the remote edit of \<open>ex_t2\<close>.\<close>

definition ex_t1 :: transaction where
  "ex_t1 = tx0\<lparr>id_tx := ''t1'', amount := 10, date := ''T1000''\<rparr>"

definition ex_t2 :: transaction where
  "ex_t2 = tx0\<lparr>id_tx := ''t2'', amount := 20, date := ''T1500''\<rparr>"

definition ex_t2' :: transaction where
  "ex_t2' = tx0\<lparr>id_tx := ''t2'', amount := 25, date := ''T2000''\<rparr>"

definition ex_t3 :: transaction where
  "ex_t3 = tx0\<lparr>id_tx := ''t3'', amount := 30, date := ''T3000''\<rparr>"

text \<open>A transaction whose date is no date.\<close>

definition ex_bad :: transaction where
  "ex_bad = tx0\<lparr>id_tx := ''t4'', amount := 40, date := ''soon''\<rparr>"

text \<open>A start over a storage whose last sync is at 1000 ms, and two backups found in the
  cloud, stamped 500 ms and 1500 ms later.\<close>

definition app_synced :: app where
  "app_synced = initial_app K0 True (empty_store\<lparr>st_LAST_SYNC := Some ''T1000''\<rparr>)"

definition no_data :: snapshot_data where
  "no_data = \<lparr>d_transactions = None, d_accounts = None, d_categories = None, d_budget = None,
              d_category_budgets = None, d_settings = None\<rparr>"

definition backup_500 :: backup_result where
  "backup_500 = \<lparr>data_b = Some no_data, metadata_timestamp = Some ''T1500''\<rparr>"

definition backup_1500 :: backup_result where
  "backup_1500 = \<lparr>data_b = Some no_data, metadata_timestamp = Some ''T2500''\<rparr>"

text \<open>A local state with a budget of 300 and a budget of 100 for one category, and a
  remote snapshot that has no overall budget and a budget for another category only.\<close>

definition app_budgets :: app where
  "app_budgets = updateCategoryBudget ''cat_food'' 100 (updateBudget 300 app0)"

definition remote_budgets :: snapshot_data where
  "remote_budgets =
     \<lparr>d_transactions = Some [], d_accounts = Some (INITIAL_ACCOUNTS K0),
      d_categories = Some (INITIAL_CATEGORIES K0), d_budget = None,
      d_category_budgets = Some [\<lparr>categoryId_cb = ''cat_rent'', amount_cb = 500\<rparr>],
      d_settings = Some [''currency'' \<mapsto> JStr ''EUR'']\<rparr>"

text \<open>An offline start in the personal context over the storage of an earlier session:
  one transaction, a second account, a budget of 300, a category budget, a dark theme.\<close>

definition store_used :: store where
  "store_used =
     empty_store\<lparr>st_TRANSACTIONS := Some [ex_t1],
                 st_ACCOUNTS := Some [\<lparr>id_acc = ''acc_cash'', name_acc = ''Cash'', rest_acc = []\<rparr>,
                                      \<lparr>id_acc = ''acc_bank'', name_acc = ''Bank'', rest_acc = []\<rparr>],
                 st_CATEGORIES := Some [\<lparr>id_cat = ''cat_food'', name_cat = ''Food'', rest_cat = []\<rparr>,
                                        \<lparr>id_cat = ''cat_rent'', name_cat = ''Rent'', rest_cat = []\<rparr>],
                 st_BUDGET := Some 300,
                 st_CATEGORY_BUDGETS := Some [\<lparr>categoryId_cb = ''cat_food'', amount_cb = 100\<rparr>],
                 st_SETTINGS := Some [''currency'' \<mapsto> JStr ''$'', ''autoBackup'' \<mapsto> JStr ''daily'',
                                      ''theme'' \<mapsto> JStr ''dark'']\<rparr>"

definition app_used :: app where
  "app_used = initial_app K0 False store_used"

text \<open>The same start when the storage also holds a saved snapshot of the wallet \<^verbatim>\<open>w1\<close>,
  which differs from the personal one in every part and whose settings have a key that
  the personal settings lack.\<close>

definition wallet_saved :: snapshot_data where
  "wallet_saved =
     \<lparr>d_transactions = Some [ex_t3],
      d_accounts = Some [\<lparr>id_acc = ''acc_joint'', name_acc = ''Joint'', rest_acc = []\<rparr>],
      d_categories = Some [\<lparr>id_cat = ''cat_trip'', name_cat = ''Trip'', rest_cat = []\<rparr>],
      d_budget = Some 50,
      d_category_budgets = Some [\<lparr>categoryId_cb = ''cat_trip'', amount_cb = 20\<rparr>],
      d_settings = Some [''currency'' \<mapsto> JStr ''EUR'', ''autoBackup'' \<mapsto> JStr ''daily'',
                         ''reportChartType'' \<mapsto> JStr ''pie'']\<rparr>"

definition app_two_contexts :: app where
  "app_two_contexts =
     initial_app K0 False (store_used\<lparr>st_composite := [ctx_key (Some ''w1'') \<mapsto> wallet_saved]\<rparr>)"

text \<open>A wallet list that a login fetches.\<close>

definition wallet9 :: wallet where
  "wallet9 = \<lparr>id_wallet = ''w9'', name_wallet = ''Trip'', currency_wallet = ''EUR''\<rparr>"

text \<open>A login is under way (\<open>app_login\<close>, which captured version 1); then \<^verbatim>\<open>logout\<close> runs to
  its end, the sign-out event of the provider arriving while it runs.\<close>

definition app_logged_out :: app where
  "app_logged_out =
     run K0 ms0 [Logout, HandleAuthStateChange True None, LogoutSignedOut 5] app_login"

subsection \<open>Notions used to state the properties\<close>

text \<open>A list of transactions read as a table keyed by id (the first entry of an id is the
  one found); \<open>by_id L ++ by_id (rev R)\<close> is then the union of the local and the remote
  table in which a remote entry (the last one of its id) overrides a local one.\<close>

definition by_id :: "transaction list \<Rightarrow> (string \<rightharpoonup> transaction)" where
  "by_id ts = map_of (map (\<lambda>t. (id_tx t, t)) ts)"

text \<open>The entries of the merge map: keys are distinct, and each is the id of its value.\<close>

definition keyed :: "(string \<times> transaction) list \<Rightarrow> bool" where
  "keyed m = (distinct (map fst m) \<and> (\<forall>(k, t)\<in>set m. k = id_tx t))"

text \<open>The remote snapshot that an answer to \<^verbatim>\<open>restoreBackup\<close> carries, if any (\<^verbatim>\<open>remoteData\<close>).\<close>

definition remote_of :: "restore_answer \<Rightarrow> snapshot_data option" where
  "remote_of ans =
     (case ans of
        WalletAnswer (Returned rd) nowIso \<Rightarrow> rd
      | BackupAnswer (Returned (Some r)) \<Rightarrow> data_b r
      | _ \<Rightarrow> None)"

section \<open>Properties\<close>

lemmas mutation_defs =
  addTransaction_def updateTransaction_def deleteTransaction_def importTransactions_def
  addAccount_def updateAccountName_def deleteAccount_def addCategory_def updateCategory_def
  deleteCategory_def updateBudget_def updateCategoryBudget_def updateSettings_def

lemmas operation_defs =
  persist_def handleOnline_def handleOffline_def setSyncState_def showNotification_def
  notificationTimeout_def updateUserProfilePhoto_def realtime_setup_def
  realtime_wallet_change_def realtime_backup_change_def realtime_subscribed_def
  realtime_cleanup_def switchWallet_def switchWallet_from_def switchWallet_fetched_def
  install_data_def refreshWallets_answered_def createWallet_answered_def
  deleteWallet_answered_def resetPreferences_def backupUserData_def backup_finally_def
  backupUserData_answered_def restoreBackup_def restoreBackup_answered_def
  handleAuthStateChange_def auth_reconcile_def handleAuthStateChange_wallets_def
  handleAuthStateChange_backup_def logout_def logout_signedOut_def
  loadContextFromStorage_def saveCurrentContextToStorage_def Let_def

lemmas example_defs =
  app0_def app_login_def app_dirty_def app_pushing_def K0_def au0_def initial_app_def
  empty_store_def or_default_def profile_of_def truthy_def or_null_def current_data_def

lemma map_add_idem: "m ++ m = m"
  by (rule ext) (simp add: map_add_def split: option.splits)

subsection \<open>The dirty flag after mutating operations\<close>

lemma unsyncedChanges_markAsDirty: "unsyncedChanges (syncState (markAsDirty s))"
  by (simp add: markAsDirty_def setSyncState_def)

lemma unsyncedChanges_mutate: "unsyncedChanges (syncState (mutate m s))"
  by (cases m) (simp_all add: mutation_defs Let_def unsyncedChanges_markAsDirty)

lemma mutate_all_snoc: "mutate_all (ms @ [m]) s = mutate m (mutate_all ms s)"
  by (simp add: mutate_all_def)

text \<open>
  Claim C1. Each of the thirteen mutating operations (\<open>mutate m\<close> for every constructor
  of \<open>mutation\<close>, the cascades of \<open>deleteAccount\<close> and \<open>deleteCategory\<close> included) returns a
  state whose \<open>unsyncedChanges\<close> is true, whatever the state it starts from; hence after
  any non-empty sequence of mutating operations, with nothing else in between,
  \<open>unsyncedChanges\<close> is true.
\<close>

theorem C1_mutations_mark_dirty:
  "unsyncedChanges (syncState (mutate m s)) \<and>
   (ms \<noteq> [] \<longrightarrow> unsyncedChanges (syncState (mutate_all ms s)))"
proof
  show "unsyncedChanges (syncState (mutate m s))"
    by (rule unsyncedChanges_mutate)
next
  show "ms \<noteq> [] \<longrightarrow> unsyncedChanges (syncState (mutate_all ms s))"
  proof (cases ms rule: rev_cases)
    case Nil
    then show ?thesis by simp
  next
    case (snoc ys y)
    then show ?thesis
      by (simp add: mutate_all_snoc unsyncedChanges_mutate)
  qed
qed

text \<open>On a fresh state, which is clean: deleting an account, and a sequence of two
  operations.\<close>

theorem C1_mutations_mark_dirty_witness:
  "[UpdateBudget 100, DeleteAccount ''acc_cash''] \<noteq> [] \<and>
   \<not> unsyncedChanges (syncState app0) \<and>
   unsyncedChanges (syncState (mutate (DeleteAccount ''acc_cash'') app0)) \<and>
   unsyncedChanges (syncState (mutate_all [UpdateBudget 100, DeleteAccount ''acc_cash''] app0))"
  using C1_mutations_mark_dirty [of "DeleteAccount ''acc_cash''" app0
          "[UpdateBudget 100, DeleteAccount ''acc_cash'']"]
  by (simp add: app0_def initial_app_def empty_store_def or_default_def)

subsection \<open>What clears the dirty flag\<close>

lemma dirty_kept_by_mutation:
  "unsyncedChanges (syncState (step K date_ms (Mutation m) s))"
  by (simp add: unsyncedChanges_mutate)

text \<open>The claim that only a successful push clears the flag fails: switching wallet
  clears it.\<close>

theorem C2_switch_clears_dirty_counterexample:
  "unsyncedChanges (syncState app_dirty) \<and>
   \<not> unsyncedChanges (syncState (snd (switchWallet K0 0 (Some ''w1'') app_dirty)))"
  by (simp add: example_defs operation_defs updateBudget_def markAsDirty_def ctx_key_def)

text \<open>
  Claim C2, amended. Whatever the state, an event after which \<open>unsyncedChanges\<close> has gone
  from true to false is one of: the answer to a push that succeeded, a call of
  \<open>switchWallet\<close> (also the one made by \<open>createWallet\<close> once the wallet is created, and by
  \<open>deleteWallet\<close> once the wallet is deleted when that wallet was the active one), an
  authentication change to "no user", the end of \<open>logout\<close>, and \<open>resetPreferences\<close>. No
  other event of the state manager clears the flag; in particular the answer to
  \<open>deleteWallet\<close> for a wallet that is not the active one does not.
\<close>

theorem C2_dirty_cleared_only_by:
  "unsyncedChanges (syncState s) \<Longrightarrow> \<not> unsyncedChanges (syncState (step K date_ms ev s))
     \<Longrightarrow> clears_dirty ev"
  by (cases ev)
     (simp_all add: unsyncedChanges_mutate operation_defs
        split: option.splits fetched.splits if_splits push_request.splits
               restore_answer.splits prod.splits)

text \<open>The end of a logout, on the dirty state of the examples; and the answer to the
  deletion of a wallet that is not the active one, which keeps the flag.\<close>

theorem C2_dirty_cleared_only_by_witness:
  "unsyncedChanges (syncState app_dirty) \<and>
   \<not> unsyncedChanges (syncState (step K0 ms0 (LogoutSignedOut 7) app_dirty)) \<and>
   clears_dirty (LogoutSignedOut 7) \<and>
   \<not> clears_dirty (DeleteWalletAnswered app_dirty 0 ''w9'' (Returned ())) \<and>
   unsyncedChanges (syncState
     (step K0 ms0 (DeleteWalletAnswered app_dirty 0 ''w9'' (Returned ())) app_dirty))"
proof -
  have h1: "unsyncedChanges (syncState app_dirty)"
    by (simp add: example_defs operation_defs updateBudget_def markAsDirty_def)
  have h2: "\<not> unsyncedChanges (syncState (step K0 ms0 (LogoutSignedOut 7) app_dirty))"
    by (simp add: operation_defs)
  have h3: "activeWalletId (syncState app_dirty) = None"
    by (simp add: example_defs operation_defs updateBudget_def markAsDirty_def)
  have h4: "unsyncedChanges (syncState
     (step K0 ms0 (DeleteWalletAnswered app_dirty 0 ''w9'' (Returned ())) app_dirty))"
    using h1 h3 by (simp add: deleteWallet_answered_def showNotification_def Let_def)
  from C2_dirty_cleared_only_by [OF h1 h2] h1 h2 h3 h4 show ?thesis by simp
qed

subsection \<open>Merge restore of the transactions\<close>

lemma set_update_subset: "set (AList.update k v m) \<subseteq> insert (k, v) (set m)"
  by (induction m) auto

lemma keyed_update: "keyed m \<Longrightarrow> keyed (AList.update (id_tx t) t m)"
  unfolding keyed_def
  using set_update_subset [of "id_tx t" t m]
  by (auto simp: AList.distinct_update)

lemma cloud_fold:
  "map_of (foldl (\<lambda>txMap t. AList.update (id_tx t) t txMap) m R) = map_of m ++ by_id (rev R)"
proof (induction R arbitrary: m)
  case Nil
  show ?case by (simp add: by_id_def)
next
  case (Cons t R)
  have "by_id (rev (t # R)) = [id_tx t \<mapsto> t] ++ by_id (rev R)"
    by (simp add: by_id_def)
  moreover have "map_of (AList.update (id_tx t) t m) = map_of m ++ [id_tx t \<mapsto> t]"
    by (simp add: AList.update_conv')
  ultimately have "map_of m ++ by_id (rev (t # R))
      = map_of (AList.update (id_tx t) t m) ++ by_id (rev R)"
    by (simp only: map_add_assoc)
  then show ?case
    using Cons.IH [of "AList.update (id_tx t) t m"] by simp
qed

lemma cloud_keyed:
  "keyed m \<Longrightarrow> keyed (foldl (\<lambda>txMap t. AList.update (id_tx t) t txMap) m R)"
  by (induction R arbitrary: m) (simp_all add: keyed_update)

lemma set_local_Cons:
  "set_local m (t # L) =
     set_local (if id_tx t \<notin> fst ` set m then AList.update (id_tx t) t m else m) L"
  by (simp add: set_local_def)

lemma local_fold: "map_of (set_local m L) = by_id L ++ map_of m"
proof (induction L arbitrary: m)
  case Nil
  show ?case by (simp add: set_local_def by_id_def)
next
  case (Cons t L)
  have hd: "by_id (t # L) = (by_id L)(id_tx t \<mapsto> t)"
    by (simp add: by_id_def)
  show ?case
  proof (cases "id_tx t \<in> fst ` set m")
    case True
    then have "id_tx t \<in> dom (map_of m)"
      by (simp add: dom_map_of_conv_image_fst)
    then have "(by_id L)(id_tx t \<mapsto> t) ++ map_of m = by_id L ++ map_of m"
      by (auto simp: map_add_def fun_eq_iff split: option.splits)
    with True show ?thesis
      using Cons.IH [of m]
      by (simp only: set_local_Cons hd if_False not_True_eq_False not_not)
  next
    case False
    then have "id_tx t \<notin> dom (map_of m)"
      by (simp add: dom_map_of_conv_image_fst)
    then have "(by_id L)(id_tx t \<mapsto> t) ++ map_of m = by_id L ++ (map_of m)(id_tx t \<mapsto> t)"
      by (auto simp: map_add_def fun_eq_iff split: option.splits)
    with False show ?thesis
      using Cons.IH [of "AList.update (id_tx t) t m"]
      by (simp only: set_local_Cons hd AList.update_conv' if_True not_False_eq_True)
  qed
qed

lemma local_keyed: "keyed m \<Longrightarrow> keyed (set_local m L)"
proof (induction L arbitrary: m)
  case Nil
  then show ?case by (simp add: set_local_def)
next
  case (Cons t L)
  show ?case
    unfolding set_local_Cons using Cons.prems by (intro Cons.IH) (simp add: keyed_update)
qed

lemma keyed_ids: "keyed m \<Longrightarrow> map id_tx (map snd m) = map fst m"
  by (induction m) (auto simp: keyed_def)

lemma keyed_ran: "keyed m \<Longrightarrow> set (map snd m) = ran (map_of m)"
  by (simp add: keyed_def ran_distinct)

lemma txMap_keyed: "keyed (set_local (set_cloud R) L)"
proof -
  have "keyed []" by (simp add: keyed_def)
  then show ?thesis
    unfolding set_cloud_def by (intro local_keyed cloud_keyed)
qed

lemma txMap_lookup: "map_of (set_local (set_cloud R) L) = by_id L ++ by_id (rev R)"
  by (simp add: local_fold set_cloud_def cloud_fold)

lemma txMap_set: "set (map snd (set_local (set_cloud R) L)) = ran (by_id L ++ by_id (rev R))"
  using txMap_keyed [of R L] txMap_lookup [of R L]
  by (simp add: keyed_ran del: set_map)

text \<open>The sort returns the same entries.\<close>

lemma sift_set: "set (sift cmp x ys) = insert x (set ys)"
  by (induction ys) auto

lemma sift_length: "length (sift cmp x ys) = Suc (length ys)"
  by (induction ys) auto

lemma sift_distinct:
  "distinct (map f (sift cmp x ys)) = (f x \<notin> f ` set ys \<and> distinct (map f ys))"
  by (induction ys) (auto simp: sift_set)

lemma fold_sift_set: "set (foldl (\<lambda>prefix x. sift cmp x prefix) acc xs) = set acc \<union> set xs"
  by (induction xs arbitrary: acc) (auto simp: sift_set)

lemma fold_sift_length:
  "length (foldl (\<lambda>prefix x. sift cmp x prefix) acc xs) = length acc + length xs"
  by (induction xs arbitrary: acc) (auto simp: sift_length)

lemma fold_sift_distinct:
  "distinct (map f (foldl (\<lambda>prefix x. sift cmp x prefix) acc xs)) = distinct (map f (acc @ xs))"
proof (induction xs arbitrary: acc)
  case Nil
  show ?case by simp
next
  case (Cons x xs)
  have "distinct (map f (sift cmp x acc @ xs)) = distinct (map f (acc @ x # xs))"
    by (auto simp: sift_distinct sift_set)
  then show ?case using Cons.IH [of "sift cmp x acc"] by simp
qed

lemma set_array_sort: "set (array_sort cmp xs) = set xs"
  by (simp add: array_sort_def fold_sift_set)

lemma length_array_sort: "length (array_sort cmp xs) = length xs"
  by (simp add: array_sort_def fold_sift_length)

lemma distinct_array_sort: "distinct (map f (array_sort cmp xs)) = distinct (map f xs)"
proof -
  have "distinct (map f (array_sort cmp xs))
          = distinct (map f (foldl (\<lambda>prefix x. sift cmp x prefix) [] xs))"
    by (simp only: array_sort_def rev_map [symmetric] distinct_rev)
  then show ?thesis by (simp add: fold_sift_distinct)
qed

text \<open>Where the comparator agrees with a key, the sort orders by the key.\<close>

lemma sift_sorted:
  fixes k :: "'a \<Rightarrow> int"
  assumes "sorted_wrt (\<lambda>a b. k a \<le> k b) ys"
    and "\<forall>y\<in>set ys. (cmp x y < 0) = (k y < k x)"
  shows "sorted_wrt (\<lambda>a b. k a \<le> k b) (sift cmp x ys)"
  using assms
proof (induction ys)
  case Nil
  show ?case by simp
next
  case (Cons y ys)
  show ?case
  proof (cases "cmp x y < 0")
    case True
    with Cons.prems have "k y < k x" by simp
    moreover have "sorted_wrt (\<lambda>a b. k a \<le> k b) (sift cmp x ys)"
      using Cons.prems by (intro Cons.IH) simp_all
    ultimately show ?thesis
      using True Cons.prems(1) by (auto simp: sift_set)
  next
    case False
    with Cons.prems have "k x \<le> k y" by simp
    then show ?thesis
      using False Cons.prems(1) by auto
  qed
qed

lemma fold_sift_sorted:
  fixes k :: "'a \<Rightarrow> int"
  assumes "sorted_wrt (\<lambda>a b. k a \<le> k b) acc"
    and "\<forall>x\<in>set acc \<union> set xs. \<forall>y\<in>set acc \<union> set xs. (cmp x y < 0) = (k y < k x)"
  shows "sorted_wrt (\<lambda>a b. k a \<le> k b) (foldl (\<lambda>prefix x. sift cmp x prefix) acc xs)"
  using assms
proof (induction xs arbitrary: acc)
  case Nil
  then show ?case by simp
next
  case (Cons x xs)
  have 1: "sorted_wrt (\<lambda>a b. k a \<le> k b) (sift cmp x acc)"
    using Cons.prems by (intro sift_sorted) simp_all
  have 2: "\<forall>a\<in>set (sift cmp x acc) \<union> set xs. \<forall>b\<in>set (sift cmp x acc) \<union> set xs.
             (cmp a b < 0) = (k b < k a)"
    using Cons.prems(2) by (simp add: sift_set)
  show ?case using Cons.IH [OF 1 2] by simp
qed

lemma array_sort_sorted:
  fixes k :: "'a \<Rightarrow> int"
  assumes "\<forall>x\<in>set xs. \<forall>y\<in>set xs. (cmp x y < 0) = (k y < k x)"
  shows "sorted_wrt (\<lambda>a b. k b \<le> k a) (array_sort cmp xs)"
proof -
  have "sorted_wrt (\<lambda>a b. k a \<le> k b) (foldl (\<lambda>prefix x. sift cmp x prefix) [] xs)"
    using assms by (intro fold_sift_sorted) simp_all
  then show ?thesis by (simp add: array_sort_def sorted_wrt_rev)
qed

lemma merge_set:
  "set (merge_transactions date_ms valid_date R L) = ran (by_id L ++ by_id (rev R))"
  by (simp only: merge_transactions_def set_array_sort txMap_set)

lemma merge_distinct: "distinct (map id_tx (merge_transactions date_ms valid_date R L))"
proof -
  let ?m = "set_local (set_cloud R) L"
  have "distinct (map id_tx (map snd ?m))"
    using txMap_keyed [of R L] by (simp add: keyed_ids keyed_def del: map_map)
  then show ?thesis
    by (simp only: merge_transactions_def distinct_array_sort)
qed

lemma ran_memD: "t \<in> ran m \<Longrightarrow> \<exists>k. m k = Some t"
  by (auto simp: ran_def)

lemma ran_memI: "m k = Some t \<Longrightarrow> t \<in> ran m"
  by (auto simp: ran_def)

lemma dom_by_id: "dom (by_id xs) = id_tx ` set xs"
  by (simp add: by_id_def dom_map_of_conv_image_fst image_image)

lemma by_id_mem: "by_id xs k = Some t \<Longrightarrow> t \<in> set xs \<and> id_tx t = k"
  by (auto simp: by_id_def dest!: map_of_SomeD)

lemma union_mem:
  "(by_id L ++ by_id (rev R)) k = Some t \<Longrightarrow> id_tx t = k \<and> (t \<in> set L \<or> t \<in> set R)"
  using by_id_mem [of L k t] by_id_mem [of "rev R" k t]
  by (auto simp: map_add_Some_iff)

lemma ids_ran_union:
  "id_tx ` ran (by_id L ++ by_id (rev R)) = id_tx ` set L \<union> id_tx ` set R"
proof (rule set_eqI)
  fix k
  have "k \<in> id_tx ` ran (by_id L ++ by_id (rev R))
          \<longleftrightarrow> (\<exists>t. (by_id L ++ by_id (rev R)) k = Some t)"
  proof
    assume "k \<in> id_tx ` ran (by_id L ++ by_id (rev R))"
    then obtain t where t: "t \<in> ran (by_id L ++ by_id (rev R))" and kt: "k = id_tx t"
      by (rule imageE)
    from ran_memD [OF t] obtain k' where "(by_id L ++ by_id (rev R)) k' = Some t"
      by (rule exE)
    with kt have "(by_id L ++ by_id (rev R)) k' = Some t" "k = id_tx t" by simp_all
    then show "\<exists>t. (by_id L ++ by_id (rev R)) k = Some t"
      using union_mem [of L R k' t] by auto
  next
    assume "\<exists>t. (by_id L ++ by_id (rev R)) k = Some t"
    then obtain t where t: "(by_id L ++ by_id (rev R)) k = Some t" by (rule exE)
    then have "id_tx t = k" using union_mem [of L R k t] by simp
    moreover from t have "t \<in> ran (by_id L ++ by_id (rev R))" by (rule ran_memI)
    ultimately show "k \<in> id_tx ` ran (by_id L ++ by_id (rev R))" by blast
  qed
  also have "\<dots> \<longleftrightarrow> k \<in> dom (by_id L ++ by_id (rev R))"
    by (simp only: domIff not_None_eq)
  also have "\<dots> \<longleftrightarrow> k \<in> id_tx ` set L \<union> id_tx ` set R"
    by (simp only: dom_map_add dom_by_id set_rev Un_commute)
  finally show "k \<in> id_tx ` ran (by_id L ++ by_id (rev R))
                  \<longleftrightarrow> k \<in> id_tx ` set L \<union> id_tx ` set R" .
qed

lemma merge_from_either:
  assumes "t \<in> set (merge_transactions date_ms valid_date R L)"
  shows "t \<in> set L \<or> t \<in> set R"
proof -
  from assms have "t \<in> ran (by_id L ++ by_id (rev R))" by (simp only: merge_set)
  from ran_memD [OF this] obtain k where "(by_id L ++ by_id (rev R)) k = Some t"
    by (rule exE)
  then show ?thesis using union_mem [of L R k t] by simp
qed

lemma merge_remote_wins:
  assumes "t \<in> set (merge_transactions date_ms valid_date R L)" and "id_tx t \<in> id_tx ` set R"
  shows "t \<in> set R"
proof -
  from assms(1) have "t \<in> ran (by_id L ++ by_id (rev R))" by (simp only: merge_set)
  from ran_memD [OF this] obtain k where k: "(by_id L ++ by_id (rev R)) k = Some t"
    by (rule exE)
  then have "id_tx t = k" using union_mem [of L R k t] by simp
  with assms(2) have "k \<in> dom (by_id (rev R))" by (simp add: dom_by_id)
  with k have "by_id (rev R) k = Some t" by (auto simp: map_add_Some_iff)
  then show "t \<in> set R" using by_id_mem [of "rev R" k t] by simp
qed

lemma merge_local_only:
  assumes "t \<in> set (merge_transactions date_ms valid_date R L)" and "id_tx t \<notin> id_tx ` set R"
  shows "t \<in> set L"
  using merge_from_either [OF assms(1)] assms(2) by auto

lemma merge_sorted:
  assumes "\<forall>t\<in>set L \<union> set R. valid_date (date t)"
  shows "sorted_wrt (\<lambda>a b. date_ms (date a) \<ge> date_ms (date b))
           (merge_transactions date_ms valid_date R L)"
proof -
  let ?xs = "map snd (set_local (set_cloud R) L)"
  have sub: "\<forall>t\<in>set ?xs. valid_date (date t)"
  proof
    fix t assume "t \<in> set ?xs"
    then have "t \<in> set (merge_transactions date_ms valid_date R L)"
      by (simp only: merge_transactions_def set_array_sort)
    from merge_from_either [OF this] assms show "valid_date (date t)" by auto
  qed
  have "\<forall>x\<in>set ?xs. \<forall>y\<in>set ?xs.
          (date_compare date_ms valid_date x y < 0) = (date_ms (date y) < date_ms (date x))"
    using sub by (simp add: date_compare_def)
  then have "sorted_wrt (\<lambda>a b. date_ms (date b) \<le> date_ms (date a))
               (array_sort (date_compare date_ms valid_date) ?xs)"
    by (rule array_sort_sorted)
  then show ?thesis by (simp only: merge_transactions_def)
qed

lemma merge_example_map:
  assumes "id_tx t2' = id_tx t2" "id_tx t1 \<noteq> id_tx t2" "id_tx t3 \<noteq> id_tx t2"
    "id_tx t1 \<noteq> id_tx t3"
  shows "set_local (set_cloud [t2', t3]) [t1, t2]
           = [(id_tx t2, t2'), (id_tx t3, t3), (id_tx t1, t1)]"
proof -
  have c: "set_cloud [t2', t3] = [(id_tx t2, t2'), (id_tx t3, t3)]"
    using assms by (simp add: set_cloud_def)
  show ?thesis
    unfolding c using assms by (simp add: set_local_def)
qed

lemma merge_example:
  assumes "id_tx t2' = id_tx t2" "id_tx t1 \<noteq> id_tx t2" "id_tx t3 \<noteq> id_tx t2"
    "id_tx t1 \<noteq> id_tx t3"
  shows "set (merge_transactions date_ms valid_date [t2', t3] [t1, t2]) = {t1, t2', t3}"
    and "length (merge_transactions date_ms valid_date [t2', t3] [t1, t2]) = 3"
proof -
  note m = merge_example_map [OF assms]
  show "set (merge_transactions date_ms valid_date [t2', t3] [t1, t2]) = {t1, t2', t3}"
    unfolding merge_transactions_def m by (simp only: set_array_sort list.map snd_conv) auto
  show "length (merge_transactions date_ms valid_date [t2', t3] [t1, t2]) = 3"
    unfolding merge_transactions_def m by (simp only: length_array_sort list.map snd_conv) simp
qed

text \<open>The claim that the merged list is sorted by descending date for every local and
  remote list fails when a date is no date: the comparator then yields \<^verbatim>\<open>NaN\<close>, the
  entry counts as equal to its neighbours, and a later transaction stays behind an
  earlier one. Here the local list holds \<open>ex_t1\<close> (at 1000 ms), \<open>ex_bad\<close> (no date) and
  \<open>ex_t3\<close> (at 3000 ms), and the remote snapshot has no transactions.\<close>

theorem C3_invalid_date_unsorted_counterexample:
  "transactions (snd (restoreBackup_answered K0 ms0 valid0 Merge
       (BackupAnswer (Returned (Some \<lparr>data_b = Some no_data, metadata_timestamp = None\<rparr>)))
       (app0\<lparr>transactions := [ex_t1, ex_bad, ex_t3]\<rparr>)))
     = [ex_t1, ex_bad, ex_t3] \<and>
   valid0 (date ex_t1) \<and> valid0 (date ex_t3) \<and> \<not> valid0 (date ex_bad) \<and>
   ms0 (date ex_t1) < ms0 (date ex_t3) \<and>
   \<not> sorted_wrt (\<lambda>a b. ms0 (date a) \<ge> ms0 (date b))
       (transactions (snd (restoreBackup_answered K0 ms0 valid0 Merge
          (BackupAnswer (Returned (Some \<lparr>data_b = Some no_data, metadata_timestamp = None\<rparr>)))
          (app0\<lparr>transactions := [ex_t1, ex_bad, ex_t3]\<rparr>))))"
proof -
  have m: "merge_transactions ms0 valid0 [] [ex_t1, ex_bad, ex_t3] = [ex_t1, ex_bad, ex_t3]"
    by (simp add: merge_transactions_def set_local_def set_cloud_def array_sort_def
          date_compare_def ms0_def valid0_def ex_t1_def ex_bad_def ex_t3_def tx0_def)
  have r: "transactions (snd (restoreBackup_answered K0 ms0 valid0 Merge
       (BackupAnswer (Returned (Some \<lparr>data_b = Some no_data, metadata_timestamp = None\<rparr>)))
       (app0\<lparr>transactions := [ex_t1, ex_bad, ex_t3]\<rparr>)))
     = merge_transactions ms0 valid0 [] [ex_t1, ex_bad, ex_t3]"
    by (simp add: restoreBackup_answered_def Let_def setSyncState_def no_data_def
          or_default_def truthy_def)
  have d: "valid0 (date ex_t1) \<and> valid0 (date ex_t3) \<and> \<not> valid0 (date ex_bad) \<and>
           ms0 (date ex_t1) < ms0 (date ex_t3)"
    by (simp add: ms0_def valid0_def ex_t1_def ex_bad_def ex_t3_def tx0_def)
  from d have "\<not> sorted_wrt (\<lambda>a b. ms0 (date a) \<ge> ms0 (date b)) [ex_t1, ex_bad, ex_t3]"
    by simp
  with m r d show ?thesis by simp
qed

text \<open>
  Claim C3, amended. When \<open>restoreBackup\<close> with the merge strategy receives a remote
  snapshot, the live transaction list becomes \<open>merge_transactions date_ms valid_date R L\<close>,
  where \<open>L\<close> is the live list and \<open>R\<close> the remote one (empty if the snapshot has none). For
  all \<open>L\<close> and \<open>R\<close> this list holds exactly the entries of the union of the two tables
  keyed by id in which remote overrides local; its ids are those of \<open>L\<close> and of \<open>R\<close>; an
  entry whose id occurs in \<open>R\<close> is an entry of \<open>R\<close>, an entry whose id does not is an entry
  of \<open>L\<close>; and no id occurs twice. When every local and remote transaction has a date
  that is a date, the dates descend. For local \<open>[t1, t2]\<close> and remote \<open>[t2', t3]\<close> with
  \<open>t2'\<close> sharing the id of \<open>t2\<close> and the ids otherwise distinct, the result has exactly
  the three entries \<open>t1\<close>, \<open>t2'\<close>, \<open>t3\<close>.
\<close>

theorem C3_merge_union_valid_dates:
  "transactions (snd (restoreBackup_answered K date_ms valid_date Merge
       (BackupAnswer (Returned (Some \<lparr>data_b = Some rd, metadata_timestamp = ts\<rparr>))) s))
     = merge_transactions date_ms valid_date (or_default (d_transactions rd) []) (transactions s) \<and>
   transactions (snd (restoreBackup_answered K date_ms valid_date Merge
       (WalletAnswer (Returned (Some rd)) nowIso) s))
     = merge_transactions date_ms valid_date (or_default (d_transactions rd) []) (transactions s) \<and>
   set (merge_transactions date_ms valid_date R L) = ran (by_id L ++ by_id (rev R)) \<and>
   id_tx ` set (merge_transactions date_ms valid_date R L) = id_tx ` set L \<union> id_tx ` set R \<and>
   (\<forall>t \<in> set (merge_transactions date_ms valid_date R L).
      id_tx t \<in> id_tx ` set R \<longrightarrow> t \<in> set R) \<and>
   (\<forall>t \<in> set (merge_transactions date_ms valid_date R L).
      id_tx t \<notin> id_tx ` set R \<longrightarrow> t \<in> set L) \<and>
   distinct (map id_tx (merge_transactions date_ms valid_date R L)) \<and>
   ((\<forall>t \<in> set L \<union> set R. valid_date (date t)) \<longrightarrow>
      sorted_wrt (\<lambda>a b. date_ms (date a) \<ge> date_ms (date b))
        (merge_transactions date_ms valid_date R L)) \<and>
   (id_tx t2' = id_tx t2 \<and> id_tx t1 \<noteq> id_tx t2 \<and> id_tx t3 \<noteq> id_tx t2 \<and> id_tx t1 \<noteq> id_tx t3
      \<longrightarrow> set (merge_transactions date_ms valid_date [t2', t3] [t1, t2]) = {t1, t2', t3} \<and>
          length (merge_transactions date_ms valid_date [t2', t3] [t1, t2]) = 3)"
proof (intro conjI)
  show "transactions (snd (restoreBackup_answered K date_ms valid_date Merge
       (BackupAnswer (Returned (Some \<lparr>data_b = Some rd, metadata_timestamp = ts\<rparr>))) s))
     = merge_transactions date_ms valid_date (or_default (d_transactions rd) []) (transactions s)"
    by (simp add: restoreBackup_answered_def Let_def setSyncState_def)
  show "transactions (snd (restoreBackup_answered K date_ms valid_date Merge
       (WalletAnswer (Returned (Some rd)) nowIso) s))
     = merge_transactions date_ms valid_date (or_default (d_transactions rd) []) (transactions s)"
    by (simp add: restoreBackup_answered_def Let_def setSyncState_def)
  show "set (merge_transactions date_ms valid_date R L) = ran (by_id L ++ by_id (rev R))"
    by (rule merge_set)
  show "id_tx ` set (merge_transactions date_ms valid_date R L) = id_tx ` set L \<union> id_tx ` set R"
    by (simp only: merge_set ids_ran_union)
  show "\<forall>t \<in> set (merge_transactions date_ms valid_date R L).
          id_tx t \<in> id_tx ` set R \<longrightarrow> t \<in> set R"
    using merge_remote_wins by blast
  show "\<forall>t \<in> set (merge_transactions date_ms valid_date R L).
          id_tx t \<notin> id_tx ` set R \<longrightarrow> t \<in> set L"
    using merge_local_only by blast
  show "distinct (map id_tx (merge_transactions date_ms valid_date R L))"
    by (rule merge_distinct)
  show "(\<forall>t \<in> set L \<union> set R. valid_date (date t)) \<longrightarrow>
      sorted_wrt (\<lambda>a b. date_ms (date a) \<ge> date_ms (date b))
        (merge_transactions date_ms valid_date R L)"
    using merge_sorted by blast
  show "id_tx t2' = id_tx t2 \<and> id_tx t1 \<noteq> id_tx t2 \<and> id_tx t3 \<noteq> id_tx t2 \<and> id_tx t1 \<noteq> id_tx t3
      \<longrightarrow> set (merge_transactions date_ms valid_date [t2', t3] [t1, t2]) = {t1, t2', t3} \<and>
          length (merge_transactions date_ms valid_date [t2', t3] [t1, t2]) = 3"
    using merge_example [of t2' t2 t1 t3 date_ms valid_date] by blast
qed

text \<open>The example of the claim on four concrete transactions, all dated: the merged
  list is the remote \<open>ex_t3\<close>, the remote \<open>ex_t2'\<close>, then the local \<open>ex_t1\<close>, which is the
  descending order of their dates.\<close>

theorem C3_merge_union_valid_dates_witness:
  "id_tx ex_t2' = id_tx ex_t2 \<and> id_tx ex_t1 \<noteq> id_tx ex_t2 \<and> id_tx ex_t3 \<noteq> id_tx ex_t2 \<and>
   id_tx ex_t1 \<noteq> id_tx ex_t3 \<and>
   valid0 (date ex_t1) \<and> valid0 (date ex_t2) \<and> valid0 (date ex_t2') \<and> valid0 (date ex_t3) \<and>
   merge_transactions ms0 valid0 [ex_t2', ex_t3] [ex_t1, ex_t2] = [ex_t3, ex_t2', ex_t1] \<and>
   set (merge_transactions ms0 valid0 [ex_t2', ex_t3] [ex_t1, ex_t2]) = {ex_t1, ex_t2', ex_t3} \<and>
   sorted_wrt (\<lambda>a b. ms0 (date a) \<ge> ms0 (date b))
     (merge_transactions ms0 valid0 [ex_t2', ex_t3] [ex_t1, ex_t2]) \<and>
   ms0 (date ex_t3) > ms0 (date ex_t2') \<and> ms0 (date ex_t2') > ms0 (date ex_t1) \<and>
   ex_t2' \<in> set (merge_transactions ms0 valid0 [ex_t2', ex_t3] [ex_t1, ex_t2]) \<and>
   id_tx ex_t2' \<in> id_tx ` set [ex_t2', ex_t3] \<and> ex_t2' \<in> set [ex_t2', ex_t3] \<and>
   ex_t1 \<in> set (merge_transactions ms0 valid0 [ex_t2', ex_t3] [ex_t1, ex_t2]) \<and>
   id_tx ex_t1 \<notin> id_tx ` set [ex_t2', ex_t3] \<and> ex_t1 \<in> set [ex_t1, ex_t2]"
proof -
  have ids: "id_tx ex_t2' = id_tx ex_t2 \<and> id_tx ex_t1 \<noteq> id_tx ex_t2 \<and>
             id_tx ex_t3 \<noteq> id_tx ex_t2 \<and> id_tx ex_t1 \<noteq> id_tx ex_t3"
    by (simp add: ex_t1_def ex_t2_def ex_t2'_def ex_t3_def tx0_def)
  have val: "valid0 (date ex_t1) \<and> valid0 (date ex_t2) \<and> valid0 (date ex_t2') \<and>
             valid0 (date ex_t3)"
    by (simp add: valid0_def ex_t1_def ex_t2_def ex_t2'_def ex_t3_def tx0_def)
  have ord: "ms0 (date ex_t3) > ms0 (date ex_t2') \<and> ms0 (date ex_t2') > ms0 (date ex_t1)"
    by (simp add: ms0_def ex_t1_def ex_t2'_def ex_t3_def tx0_def)
  have m: "merge_transactions ms0 valid0 [ex_t2', ex_t3] [ex_t1, ex_t2] = [ex_t3, ex_t2', ex_t1]"
    by (simp add: merge_transactions_def set_local_def set_cloud_def array_sort_def
          date_compare_def ms0_def valid0_def ex_t1_def ex_t2_def ex_t2'_def ex_t3_def tx0_def)
  have allv: "\<forall>t \<in> set [ex_t1, ex_t2] \<union> set [ex_t2', ex_t3]. valid0 (date t)"
    using val by simp
  note inst = C3_merge_union_valid_dates [of K0 ms0 valid0 no_data None app0 "''T1000''"
          "[ex_t2', ex_t3]" "[ex_t1, ex_t2]" ex_t2' ex_t2 ex_t1 ex_t3]
  from inst ids
  have s: "set (merge_transactions ms0 valid0 [ex_t2', ex_t3] [ex_t1, ex_t2])
             = {ex_t1, ex_t2', ex_t3}"
    by blast
  from inst allv
  have so: "sorted_wrt (\<lambda>a b. ms0 (date a) \<ge> ms0 (date b))
              (merge_transactions ms0 valid0 [ex_t2', ex_t3] [ex_t1, ex_t2])"
    by blast
  from ids val ord m s so show ?thesis by auto
qed

subsection \<open>Single-flight push\<close>

text \<open>Either a push is in flight and the guard is set, or neither.\<close>

lemma flight_step:
  assumes "enabled ev s"
    and "(isBackingUpRef s \<and> (\<exists>r. outstanding s = [r])) \<or>
         (\<not> isBackingUpRef s \<and> outstanding s = [])"
  shows "(isBackingUpRef (step K date_ms ev s) \<and> (\<exists>r. outstanding (step K date_ms ev s) = [r])) \<or>
         (\<not> isBackingUpRef (step K date_ms ev s) \<and> outstanding (step K date_ms ev s) = [])"
  using assms
  apply (cases ev)
                      apply (simp_all add: operation_defs initial_app_def
      split: option.splits fetched.splits if_splits push_request.splits
             restore_answer.splits prod.splits)
  subgoal for m
    by (cases m) (simp_all add: mutation_defs markAsDirty_def setSyncState_def Let_def)
   apply auto
  done

lemma flight_reachable:
  "reachable K date_ms s \<Longrightarrow>
   (isBackingUpRef s \<and> (\<exists>r. outstanding s = [r])) \<or> (\<not> isBackingUpRef s \<and> outstanding s = [])"
proof (induction rule: reachable.induct)
  case (start online st)
  show ?case by (simp add: initial_app_def)
next
  case (after s ev)
  then show ?case using flight_step by blast
qed

lemma backup_skipped_in_flight:
  "isBackingUpRef s \<Longrightarrow>
     backupUserData custom s = (Result \<lparr>skipped = True, timestamp = None\<rparr>, s)"
  by (simp add: backupUserData_def)

lemma backup_twice:
  assumes "\<not> isBackingUpRef s" "user (syncState s) \<noteq> None"
  shows "\<exists>req s1. backupUserData custom s = (Awaiting req, s1) \<and>
           outstanding s1 = outstanding s @ [req] \<and>
           backupUserData custom' s1 = (Result \<lparr>skipped = True, timestamp = None\<rparr>, s1)"
proof -
  from assms(2) obtain u where u: "user (syncState s) = Some u" by auto
  define req where "req =
     (case activeWalletId (syncState s) of
        None \<Rightarrow> BackupUserData (id_user u) (or_default custom (current_data s))
      | Some w \<Rightarrow> if w \<noteq> [] then SyncWalletData w (id_user u) (or_default custom (current_data s))
                  else BackupUserData (id_user u) (or_default custom (current_data s)))"
  define s1 where "s1 = snd (backupUserData custom s)"
  have 1: "backupUserData custom s = (Awaiting req, s1)"
    using assms(1) u by (simp add: s1_def req_def backupUserData_def Let_def)
  have 2: "outstanding s1 = outstanding s @ [req]" and 3: "isBackingUpRef s1"
    using assms(1) u by (simp_all add: s1_def req_def backupUserData_def Let_def setSyncState_def)
  have 4: "backupUserData custom' s1 = (Result \<lparr>skipped = True, timestamp = None\<rparr>, s1)"
    using 3 by (simp add: backupUserData_def)
  from 1 2 4 show ?thesis by blast
qed

text \<open>
  Claim C4. A call of \<open>backupUserData\<close> made while the guard \<open>isBackingUpRef\<close> is set
  returns \<^verbatim>\<open>{ skipped: true }\<close> (a value, not an error), asks nothing of the network and
  leaves the whole state as it was. Hence two calls back to back, by a logged-in user
  starting with no push in flight, send one push: the first awaits its request, the
  second is skipped and changes nothing. And in every reachable state at most one push
  is outstanding, and one is outstanding exactly when the guard is set.
\<close>

theorem C4_single_flight:
  "(isBackingUpRef s \<longrightarrow>
      backupUserData custom s = (Result \<lparr>skipped = True, timestamp = None\<rparr>, s)) \<and>
   (\<not> isBackingUpRef s' \<and> user (syncState s') \<noteq> None \<longrightarrow>
      (\<exists>req s1. backupUserData custom s' = (Awaiting req, s1) \<and>
         outstanding s1 = outstanding s' @ [req] \<and>
         backupUserData custom' s1 = (Result \<lparr>skipped = True, timestamp = None\<rparr>, s1))) \<and>
   (reachable K date_ms s'' \<longrightarrow>
      length (outstanding s'') \<le> 1 \<and> (isBackingUpRef s'' \<longleftrightarrow> outstanding s'' \<noteq> []))"
  using backup_skipped_in_flight [of s custom] backup_twice [of s' custom custom']
    flight_reachable [of K date_ms s'']
  by auto

lemma reachable_app_pushing: "reachable K0 ms0 app_pushing"
  unfolding app_pushing_def app_dirty_def app_login_def app0_def
  by (intro reachable.after reachable.start) simp_all

text \<open>On the examples: \<open>app_pushing\<close> is reachable and has a push in flight, \<open>app_dirty\<close> is
  the state just before that push.\<close>

theorem C4_single_flight_witness:
  "isBackingUpRef app_pushing \<and>
   backupUserData None app_pushing = (Result \<lparr>skipped = True, timestamp = None\<rparr>, app_pushing) \<and>
   \<not> isBackingUpRef app_dirty \<and> user (syncState app_dirty) \<noteq> None \<and>
   fst (backupUserData None app_dirty) = Awaiting (BackupUserData ''u1'' (current_data app_dirty)) \<and>
   reachable K0 ms0 app_pushing \<and>
   length (outstanding app_pushing) \<le> 1 \<and> outstanding app_pushing \<noteq> []"
proof -
  have h1: "isBackingUpRef app_pushing"
    by (simp add: app_pushing_def backupUserData_def Let_def setSyncState_def
          app_dirty_def app_login_def app0_def initial_app_def updateBudget_def markAsDirty_def
          handleAuthStateChange_def handleOnline_def auth_reconcile_def
          split: option.splits)
  have h2: "\<not> isBackingUpRef app_dirty \<and> user (syncState app_dirty) \<noteq> None"
    by (simp add: app_dirty_def app_login_def app0_def initial_app_def updateBudget_def
          markAsDirty_def handleAuthStateChange_def handleOnline_def auth_reconcile_def
          setSyncState_def Let_def)
  have h3: "fst (backupUserData None app_dirty)
              = Awaiting (BackupUserData ''u1'' (current_data app_dirty))"
    using h2
    by (auto simp: backupUserData_def Let_def or_default_def app_dirty_def app_login_def
          app0_def initial_app_def updateBudget_def markAsDirty_def handleAuthStateChange_def
          handleOnline_def auth_reconcile_def setSyncState_def empty_store_def profile_of_def
          au0_def split: option.splits)
  from C4_single_flight [of app_pushing None app_dirty None K0 ms0 app_pushing]
    h1 h2 h3 reachable_app_pushing
  show ?thesis by simp
qed

subsection \<open>Staleness window at login\<close>

text \<open>
  Claim C5. The backup fetch of the login handler is awaited exactly when the storage
  records no active wallet. When its answer arrives in the same session and carries a
  backup with data, \<open>pendingRestoreAvailable\<close> becomes true exactly when the stored last
  sync is absent (\<^verbatim>\<open>null\<close> or empty), or the remote timestamp is present and its time
  exceeds that of the last sync by more than 1000 ms; \<open>lastSync\<close> becomes the remote
  timestamp either way, and the snapshot is not touched. With a last sync at \<open>T\<close>, a remote
  timestamp 500 ms later does not set the flag, and one 1500 ms later does.
\<close>

theorem C5_staleness_window:
  assumes "data_b r = Some d"
    and "s' = handleAuthStateChange_backup date_ms (sessionVersion s) (Returned (Some r)) s"
  shows "(fst (auth_reconcile v uid s) = AwaitBackup v uid
            \<longleftrightarrow> \<not> truthy (st_ACTIVE_WALLET_ID (storage s))) \<and>
         (pendingRestoreAvailable (syncState s') \<longleftrightarrow>
            (\<not> truthy (st_LAST_SYNC (storage s)) \<or>
             (\<exists>T R. st_LAST_SYNC (storage s) = Some T \<and> metadata_timestamp r = Some R \<and> R \<noteq> []
                    \<and> date_ms R > date_ms T + 1000))) \<and>
         lastSync (syncState s') = or_null (metadata_timestamp r) \<and>
         transactions s' = transactions s \<and> accounts s' = accounts s \<and>
         categories s' = categories s \<and> budget s' = budget s \<and>
         categoryBudgets s' = categoryBudgets s \<and> settings s' = settings s \<and>
         (\<forall>T R. st_LAST_SYNC (storage s) = Some T \<and> T \<noteq> [] \<and> metadata_timestamp r = Some R
                \<and> R \<noteq> [] \<and> date_ms R = date_ms T + 500 \<longrightarrow>
                \<not> pendingRestoreAvailable (syncState s') \<and> lastSync (syncState s') = Some R) \<and>
         (\<forall>T R. st_LAST_SYNC (storage s) = Some T \<and> T \<noteq> [] \<and> metadata_timestamp r = Some R
                \<and> R \<noteq> [] \<and> date_ms R = date_ms T + 1500 \<longrightarrow>
                pendingRestoreAvailable (syncState s') \<and> lastSync (syncState s') = Some R)"
  using assms
  by (auto simp: handleAuthStateChange_backup_def auth_reconcile_def Let_def setSyncState_def
        truthy_def or_null_def or_default_def split: option.splits if_splits)

text \<open>With the last sync at 1000 ms: a backup stamped 1500 ms is adopted silently, a
  backup stamped 2500 ms raises the flag.\<close>

theorem C5_staleness_window_witness:
  "data_b backup_500 = Some no_data \<and> data_b backup_1500 = Some no_data \<and>
   st_LAST_SYNC (storage app_synced) = Some ''T1000'' \<and>
   ms0 ''T1500'' = ms0 ''T1000'' + 500 \<and> ms0 ''T2500'' = ms0 ''T1000'' + 1500 \<and>
   \<not> pendingRestoreAvailable (syncState
        (handleAuthStateChange_backup ms0 (sessionVersion app_synced)
           (Returned (Some backup_500)) app_synced)) \<and>
   lastSync (syncState
        (handleAuthStateChange_backup ms0 (sessionVersion app_synced)
           (Returned (Some backup_500)) app_synced)) = Some ''T1500'' \<and>
   pendingRestoreAvailable (syncState
        (handleAuthStateChange_backup ms0 (sessionVersion app_synced)
           (Returned (Some backup_1500)) app_synced))"
proof -
  have d1: "data_b backup_500 = Some no_data" and d2: "data_b backup_1500 = Some no_data"
    by (simp_all add: backup_500_def backup_1500_def)
  have l: "st_LAST_SYNC (storage app_synced) = Some ''T1000''"
    by (simp add: app_synced_def initial_app_def empty_store_def)
  have t1: "metadata_timestamp backup_500 = Some ''T1500''"
    and t2: "metadata_timestamp backup_1500 = Some ''T2500''"
    by (simp_all add: backup_500_def backup_1500_def)
  have c: "ms0 ''T1500'' = ms0 ''T1000'' + 500 \<and> ms0 ''T2500'' = ms0 ''T1000'' + 1500"
    by (simp add: ms0_def)
  from C5_staleness_window [OF d1 refl, where date_ms = ms0 and s = app_synced] l t1 c
  have a: "\<not> pendingRestoreAvailable (syncState
        (handleAuthStateChange_backup ms0 (sessionVersion app_synced)
           (Returned (Some backup_500)) app_synced)) \<and>
      lastSync (syncState
        (handleAuthStateChange_backup ms0 (sessionVersion app_synced)
           (Returned (Some backup_500)) app_synced)) = Some ''T1500''"
    by (simp add: truthy_def or_null_def)
  from C5_staleness_window [OF d2 refl, where date_ms = ms0 and s = app_synced] l t2 c
  have b: "pendingRestoreAvailable (syncState
        (handleAuthStateChange_backup ms0 (sessionVersion app_synced)
           (Returned (Some backup_1500)) app_synced))"
    by (simp add: truthy_def or_null_def)
  from d1 d2 l c a b show ?thesis by simp
qed

subsection \<open>A failed push\<close>

text \<open>
  Claim C6. When the push of \<open>backupUserData\<close> fails, the call throws the error it
  received, \<open>unsyncedChanges\<close> and \<open>lastSync\<close> are as they were before the answer (so a flag
  that was true stays true), and the guard is released; so, for a user who is logged in
  and online with unsynced changes, the next run of the auto-backup timer decides to
  push and that push is sent, not skipped.
\<close>

theorem C6_failed_push_keeps_dirty:
  "fst (backupUserData_answered req iso1 iso2 (Threw err) s) = Raised err \<and>
   unsyncedChanges (syncState (snd (backupUserData_answered req iso1 iso2 (Threw err) s)))
     = unsyncedChanges (syncState s) \<and>
   lastSync (syncState (snd (backupUserData_answered req iso1 iso2 (Threw err) s)))
     = lastSync (syncState s) \<and>
   \<not> isBackingUpRef (snd (backupUserData_answered req iso1 iso2 (Threw err) s)) \<and>
   (unsyncedChanges (syncState s) \<and> isLoggedIn (syncState s) \<and> user (syncState s) \<noteq> None
      \<and> isOnline (syncState s) \<and> \<not> isLoggingOutRef s \<longrightarrow>
    checkAutoBackup date_ms now (snd (backupUserData_answered req iso1 iso2 (Threw err) s)) \<and>
    (\<exists>req'. fst (backupUserData None (snd (backupUserData_answered req iso1 iso2 (Threw err) s)))
              = Awaiting req'))"
  by (auto simp: backupUserData_answered_def backup_finally_def setSyncState_def Let_def
        checkAutoBackup_def backupUserData_def split: option.splits)

text \<open>The push of \<open>app_pushing\<close> fails with a network error.\<close>

theorem C6_failed_push_keeps_dirty_witness:
  "unsyncedChanges (syncState app_pushing) \<and> isLoggedIn (syncState app_pushing) \<and>
   user (syncState app_pushing) \<noteq> None \<and> isOnline (syncState app_pushing) \<and>
   \<not> isLoggingOutRef app_pushing \<and>
   fst (backupUserData_answered (BackupUserData ''u1'' (current_data app_dirty))
          ''T2000'' ''T2000'' (Threw ''network'') app_pushing) = Raised ''network'' \<and>
   unsyncedChanges (syncState (snd (backupUserData_answered
          (BackupUserData ''u1'' (current_data app_dirty))
          ''T2000'' ''T2000'' (Threw ''network'') app_pushing))) \<and>
   checkAutoBackup ms0 5000 (snd (backupUserData_answered
          (BackupUserData ''u1'' (current_data app_dirty))
          ''T2000'' ''T2000'' (Threw ''network'') app_pushing))"
proof -
  have h: "unsyncedChanges (syncState app_pushing) \<and> isLoggedIn (syncState app_pushing) \<and>
           user (syncState app_pushing) \<noteq> None \<and> isOnline (syncState app_pushing) \<and>
           \<not> isLoggingOutRef app_pushing"
    by (simp add: app_pushing_def backupUserData_def Let_def setSyncState_def
          app_dirty_def app_login_def app0_def initial_app_def updateBudget_def markAsDirty_def
          handleAuthStateChange_def handleOnline_def auth_reconcile_def
          split: option.splits)
  from C6_failed_push_keeps_dirty [of "BackupUserData ''u1'' (current_data app_dirty)"
          "''T2000''" "''T2000''" "''network''" app_pushing ms0 5000] h
  show ?thesis by simp
qed

subsection \<open>Switching to a wallet that has no saved snapshot\<close>

lemma ctx_key_wallet_eq: "w \<noteq> [] \<Longrightarrow> (ctx_key a = ctx_key (Some w)) = (a = Some w)"
  by (auto simp: ctx_key_def split: option.splits)

text \<open>The claim that the wallet starts from an empty snapshot and not from the personal
  defaults fails: from a personal context that has its own accounts and categories,
  the switch to the wallet \<^verbatim>\<open>w1\<close>, of which the storage holds nothing, installs the
  accounts and categories that a fresh personal context has, and they are not empty.\<close>

theorem C7_wallet_gets_initial_sets_counterexample:
  "st_composite (storage app_used) (ctx_key (Some ''w1'')) = None \<and>
   activeWalletId (syncState app_used) = None \<and>
   accounts (snd (switchWallet K0 0 (Some ''w1'') app_used)) = accounts app0 \<and>
   accounts app0 \<noteq> [] \<and> accounts app_used \<noteq> accounts app0 \<and>
   categories (snd (switchWallet K0 0 (Some ''w1'') app_used)) = categories app0 \<and>
   categories app0 \<noteq> [] \<and> categories app_used \<noteq> categories app0"
  by (simp add: app_used_def store_used_def example_defs operation_defs ctx_key_def)

text \<open>
  Claim C7, amended. When \<open>switchWallet\<close> targets a wallet id (a non-empty string) whose
  composite key is absent from the storage, then: if that wallet is not the active
  context, the live snapshot becomes no transactions, budget 0, no per-category budgets,
  the settings \<open>DEFAULT_SETTINGS\<close>, and the accounts and categories \<open>INITIAL_ACCOUNTS\<close> and
  \<open>INITIAL_CATEGORIES\<close>, which are the sets a personal context starts from on an empty
  storage; if that wallet is the active context itself, its live snapshot, saved under
  the key just before the load, is kept as it is.
\<close>

theorem C7_absent_wallet_defaults:
  assumes "w \<noteq> []"
    and "st_composite (storage s) (ctx_key (Some w)) = None"
  shows "(activeWalletId (syncState s) \<noteq> Some w \<longrightarrow>
            transactions (snd (switchWallet K now (Some w) s)) = [] \<and>
            accounts (snd (switchWallet K now (Some w) s)) = INITIAL_ACCOUNTS K \<and>
            categories (snd (switchWallet K now (Some w) s)) = INITIAL_CATEGORIES K \<and>
            budget (snd (switchWallet K now (Some w) s)) = 0 \<and>
            categoryBudgets (snd (switchWallet K now (Some w) s)) = [] \<and>
            settings (snd (switchWallet K now (Some w) s)) = DEFAULT_SETTINGS K) \<and>
         (activeWalletId (syncState s) = Some w \<longrightarrow>
            transactions (snd (switchWallet K now (Some w) s)) = transactions s \<and>
            accounts (snd (switchWallet K now (Some w) s)) = accounts s \<and>
            categories (snd (switchWallet K now (Some w) s)) = categories s \<and>
            budget (snd (switchWallet K now (Some w) s)) = budget s \<and>
            categoryBudgets (snd (switchWallet K now (Some w) s)) = categoryBudgets s \<and>
            settings (snd (switchWallet K now (Some w) s)) = settings s) \<and>
         accounts (initial_app K online empty_store) = INITIAL_ACCOUNTS K \<and>
         categories (initial_app K online empty_store) = INITIAL_CATEGORIES K"
proof (intro conjI impI)
  assume other: "activeWalletId (syncState s) \<noteq> Some w"
  then have key: "ctx_key (activeWalletId (syncState s)) \<noteq> ctx_key (Some w)"
    using assms(1) by (simp add: ctx_key_wallet_eq)
  show "transactions (snd (switchWallet K now (Some w) s)) = []"
    and "accounts (snd (switchWallet K now (Some w) s)) = INITIAL_ACCOUNTS K"
    and "categories (snd (switchWallet K now (Some w) s)) = INITIAL_CATEGORIES K"
    and "budget (snd (switchWallet K now (Some w) s)) = 0"
    and "categoryBudgets (snd (switchWallet K now (Some w) s)) = []"
    and "settings (snd (switchWallet K now (Some w) s)) = DEFAULT_SETTINGS K"
    using assms key by (simp_all add: operation_defs truthy_def)
next
  assume same: "activeWalletId (syncState s) = Some w"
  show "transactions (snd (switchWallet K now (Some w) s)) = transactions s"
    and "accounts (snd (switchWallet K now (Some w) s)) = accounts s"
    and "categories (snd (switchWallet K now (Some w) s)) = categories s"
    and "budget (snd (switchWallet K now (Some w) s)) = budget s"
    and "categoryBudgets (snd (switchWallet K now (Some w) s)) = categoryBudgets s"
    and "settings (snd (switchWallet K now (Some w) s)) = settings s"
    using assms same
    by (simp_all add: operation_defs truthy_def or_default_def or_zero_def spread_opt_def
          map_add_idem)
next
  show "accounts (initial_app K online empty_store) = INITIAL_ACCOUNTS K"
    and "categories (initial_app K online empty_store) = INITIAL_CATEGORIES K"
    by (simp_all add: initial_app_def empty_store_def or_default_def)
qed

text \<open>From the personal context in use (one transaction, two accounts, a budget of
  300, a dark theme) to the wallet \<^verbatim>\<open>w1\<close>: everything is replaced by the defaults. Then a
  transaction is added in \<^verbatim>\<open>w1\<close>, whose key is still absent, and \<^verbatim>\<open>w1\<close> is selected again:
  the transaction stays.\<close>

theorem C7_absent_wallet_defaults_witness:
  "''w1'' \<noteq> [] \<and> st_composite (storage app_used) (ctx_key (Some ''w1'')) = None \<and>
   activeWalletId (syncState app_used) \<noteq> Some ''w1'' \<and>
   transactions app_used = [ex_t1] \<and> budget app_used = 300 \<and>
   accounts app_used \<noteq> INITIAL_ACCOUNTS K0 \<and>
   settings app_used ''theme'' = Some (JStr ''dark'') \<and>
   transactions (snd (switchWallet K0 0 (Some ''w1'') app_used)) = [] \<and>
   budget (snd (switchWallet K0 0 (Some ''w1'') app_used)) = 0 \<and>
   accounts (snd (switchWallet K0 0 (Some ''w1'') app_used)) = INITIAL_ACCOUNTS K0 \<and>
   categories (snd (switchWallet K0 0 (Some ''w1'') app_used)) = INITIAL_CATEGORIES K0 \<and>
   settings (snd (switchWallet K0 0 (Some ''w1'') app_used)) = DEFAULT_SETTINGS K0 \<and>
   DEFAULT_SETTINGS K0 ''theme'' = None \<and>
   st_composite (storage (addTransaction ex_t3 ''t3'' (snd (switchWallet K0 0 (Some ''w1'') app_used))))
     (ctx_key (Some ''w1'')) = None \<and>
   activeWalletId (syncState
     (addTransaction ex_t3 ''t3'' (snd (switchWallet K0 0 (Some ''w1'') app_used)))) = Some ''w1'' \<and>
   transactions (snd (switchWallet K0 1 (Some ''w1'')
     (addTransaction ex_t3 ''t3'' (snd (switchWallet K0 0 (Some ''w1'') app_used)))))
     = transactions (addTransaction ex_t3 ''t3'' (snd (switchWallet K0 0 (Some ''w1'') app_used))) \<and>
   transactions (addTransaction ex_t3 ''t3'' (snd (switchWallet K0 0 (Some ''w1'') app_used))) \<noteq> []"
proof -
  have h1: "''w1'' \<noteq> []" by simp
  have h2: "st_composite (storage app_used) (ctx_key (Some ''w1'')) = None"
    by (simp add: app_used_def store_used_def initial_app_def empty_store_def)
  have h3: "activeWalletId (syncState app_used) \<noteq> Some ''w1''"
    by (simp add: app_used_def store_used_def initial_app_def empty_store_def)
  have before: "transactions app_used = [ex_t1] \<and> budget app_used = 300 \<and>
                accounts app_used \<noteq> INITIAL_ACCOUNTS K0 \<and>
                settings app_used ''theme'' = Some (JStr ''dark'') \<and>
                DEFAULT_SETTINGS K0 ''theme'' = None"
    by (simp add: app_used_def store_used_def initial_app_def empty_store_def or_default_def
          K0_def)
  define s1 where "s1 = addTransaction ex_t3 ''t3'' (snd (switchWallet K0 0 (Some ''w1'') app_used))"
  have g2: "st_composite (storage s1) (ctx_key (Some ''w1'')) = None"
    by (simp add: s1_def addTransaction_def markAsDirty_def app_used_def store_used_def
          initial_app_def empty_store_def operation_defs ctx_key_def truthy_def)
  have g3: "activeWalletId (syncState s1) = Some ''w1''"
    by (simp add: s1_def addTransaction_def markAsDirty_def app_used_def store_used_def
          initial_app_def empty_store_def operation_defs ctx_key_def truthy_def)
  have g4: "transactions s1 \<noteq> []"
    by (simp add: s1_def addTransaction_def markAsDirty_def setSyncState_def Let_def)
  from C7_absent_wallet_defaults [OF h1 h2, of K0 0] h3
  have a: "transactions (snd (switchWallet K0 0 (Some ''w1'') app_used)) = [] \<and>
           budget (snd (switchWallet K0 0 (Some ''w1'') app_used)) = 0 \<and>
           accounts (snd (switchWallet K0 0 (Some ''w1'') app_used)) = INITIAL_ACCOUNTS K0 \<and>
           categories (snd (switchWallet K0 0 (Some ''w1'') app_used)) = INITIAL_CATEGORIES K0 \<and>
           settings (snd (switchWallet K0 0 (Some ''w1'') app_used)) = DEFAULT_SETTINGS K0"
    by simp
  from C7_absent_wallet_defaults [OF h1 g2, of K0 1] g3
  have b: "transactions (snd (switchWallet K0 1 (Some ''w1'') s1)) = transactions s1"
    by simp
  from h1 h2 h3 before a b g2 g3 g4 show ?thesis
    unfolding s1_def by simp
qed

subsection \<open>Merge restore of budgets and settings\<close>

text \<open>The claim that local budgets with no remote counterpart survive a merge fails:
  with no remote overall budget the local 300 becomes 0, and the local budget of a
  category for which the remote has no entry is dropped.\<close>

theorem C8_budgets_replaced_counterexample:
  "budget app_budgets = 300 \<and> d_budget remote_budgets = None \<and>
   budget (snd (restoreBackup_answered K0 ms0 valid0 Merge
      (BackupAnswer (Returned (Some \<lparr>data_b = Some remote_budgets, metadata_timestamp = None\<rparr>)))
      app_budgets)) = 0 \<and>
   categoryBudgets app_budgets = [\<lparr>categoryId_cb = ''cat_food'', amount_cb = 100\<rparr>] \<and>
   categoryBudgets (snd (restoreBackup_answered K0 ms0 valid0 Merge
      (BackupAnswer (Returned (Some \<lparr>data_b = Some remote_budgets, metadata_timestamp = None\<rparr>)))
      app_budgets))
     = [\<lparr>categoryId_cb = ''cat_rent'', amount_cb = 500\<rparr>]"
  by (simp add: app_budgets_def remote_budgets_def example_defs
        restoreBackup_answered_def Let_def or_zero_def setSyncState_def
        updateCategoryBudget_def updateBudget_def markAsDirty_def)

text \<open>
  Claim C8, amended. In \<open>restoreBackup\<close> with the merge strategy, when a remote snapshot
  is received: the settings are the local settings overlaid with the remote settings
  (or with \<open>DEFAULT_SETTINGS\<close> when the remote snapshot has none), so a local key keeps
  its value exactly when the overlay lacks it and every key of the overlay takes the
  overlay's value; the overall budget is replaced by the remote budget (0 when absent);
  and the per-category budgets are replaced by the remote list (empty when absent).
\<close>

theorem C8_merge_settings_and_budgets:
  assumes "remote_of ans = Some rd"
    and "s' = snd (restoreBackup_answered K date_ms valid_date Merge ans s)"
    and "overlay = or_default (d_settings rd) (DEFAULT_SETTINGS K)"
  shows "settings s' = settings s ++ overlay \<and>
         (\<forall>k. k \<notin> dom overlay \<longrightarrow> settings s' k = settings s k) \<and>
         (\<forall>k. k \<in> dom overlay \<longrightarrow> settings s' k = overlay k) \<and>
         budget s' = or_zero (d_budget rd) \<and>
         categoryBudgets s' = or_default (d_category_budgets rd) []"
  using assms
  by (auto simp: remote_of_def restoreBackup_answered_def Let_def setSyncState_def map_add_def
      split: restore_answer.splits fetched.splits option.splits if_splits)

text \<open>On the example: the remote currency overrides the local one, the local
  \<^verbatim>\<open>autoBackup\<close> key, absent remotely, is kept.\<close>

theorem C8_merge_settings_and_budgets_witness:
  "remote_of (BackupAnswer (Returned (Some \<lparr>data_b = Some remote_budgets,
                                              metadata_timestamp = None\<rparr>)))
     = Some remote_budgets \<and>
   ''currency'' \<in> dom (or_default (d_settings remote_budgets) (DEFAULT_SETTINGS K0)) \<and>
   ''autoBackup'' \<notin> dom (or_default (d_settings remote_budgets) (DEFAULT_SETTINGS K0)) \<and>
   settings (snd (restoreBackup_answered K0 ms0 valid0 Merge
      (BackupAnswer (Returned (Some \<lparr>data_b = Some remote_budgets, metadata_timestamp = None\<rparr>)))
      app_budgets)) ''currency'' = Some (JStr ''EUR'') \<and>
   settings (snd (restoreBackup_answered K0 ms0 valid0 Merge
      (BackupAnswer (Returned (Some \<lparr>data_b = Some remote_budgets, metadata_timestamp = None\<rparr>)))
      app_budgets)) ''autoBackup'' = Some (JStr ''daily'')"
proof -
  have h1: "remote_of (BackupAnswer (Returned (Some \<lparr>data_b = Some remote_budgets,
                                              metadata_timestamp = None\<rparr>)))
              = Some remote_budgets"
    by (simp add: remote_of_def)
  have ov: "or_default (d_settings remote_budgets) (DEFAULT_SETTINGS K0)
              = [''currency'' \<mapsto> JStr ''EUR'']"
    by (simp add: remote_budgets_def or_default_def)
  have loc: "settings app_budgets ''autoBackup'' = Some (JStr ''daily'')"
    by (simp add: app_budgets_def example_defs updateCategoryBudget_def updateBudget_def
          markAsDirty_def setSyncState_def)
  from C8_merge_settings_and_budgets [OF h1 refl refl, of K0 ms0 valid0 app_budgets] h1 ov loc
  show ?thesis by simp
qed

subsection \<open>Round trip between two contexts\<close>

lemma ctx_key_personal_wallet: "truthy B \<Longrightarrow> \<not> truthy A \<Longrightarrow> ctx_key A \<noteq> ctx_key B"
  by (auto simp: truthy_def ctx_key_def split: option.splits)

text \<open>The first leg saves the outgoing snapshot under the outgoing key before anything
  else, and makes the target the active context.\<close>

lemma leg_out:
  assumes "activeWalletId (syncState s) = A" and "s1 = snd (switchWallet K now B s)"
  shows "st_composite (storage s1) (ctx_key A) = Some (current_data s)"
    and "activeWalletId (syncState s1) = B"
    and "isOnline (syncState s1) = isOnline (syncState s)"
    and "ctx_key B = ctx_key A \<Longrightarrow> current_data s1 = current_data s"
  unfolding assms(2) using assms(1)
  by (auto simp: switchWallet_def switchWallet_from_def Let_def saveCurrentContextToStorage_def
      loadContextFromStorage_def install_data_def setSyncState_def showNotification_def
      current_data_def or_default_def or_zero_def spread_opt_def map_add_idem
      split: option.splits)

lemma fetched_keeps:
  "storage (switchWallet_fetched K now B ans s) = storage s"
  "syncState (switchWallet_fetched K now B ans s) = syncState s"
  by (simp_all add: switchWallet_fetched_def install_data_def showNotification_def
      split: fetched.splits option.splits)

lemma leg_back:
  assumes "st_composite (storage mid) (ctx_key A) = Some (current_data s)"
    and "ctx_key (activeWalletId (syncState mid)) \<noteq> ctx_key A \<or> current_data mid = current_data s"
    and "\<not> (truthy A \<and> isOnline (syncState mid))"
    and "s2 = snd (switchWallet K now A mid)"
  shows "transactions s2 = transactions s \<and> accounts s2 = accounts s \<and>
         categories s2 = categories s \<and> budget s2 = budget s \<and>
         categoryBudgets s2 = categoryBudgets s \<and>
         settings s2 = settings mid ++ settings s \<and>
         fst (switchWallet K now A mid) = False \<and>
         activeWalletId (syncState s2) = A"
  unfolding assms(4) using assms(1,2,3)
  by (auto simp: switchWallet_def switchWallet_from_def Let_def saveCurrentContextToStorage_def
      loadContextFromStorage_def install_data_def setSyncState_def showNotification_def
      current_data_def or_default_def or_zero_def spread_opt_def split: option.splits)

text \<open>The claim that the round trip restores the settings exactly fails: a settings key
  held by the wallet's saved snapshot and not by the personal settings stays after the
  return to the personal context (offline, personal to \<^verbatim>\<open>w1\<close> and back).\<close>

theorem C9_settings_leak_counterexample:
  "activeWalletId (syncState app_two_contexts) = None \<and>
   \<not> isOnline (syncState app_two_contexts) \<and>
   settings app_two_contexts ''reportChartType'' = None \<and>
   settings (snd (switchWallet K0 2 None
               (snd (switchWallet K0 1 (Some ''w1'') app_two_contexts)))) ''reportChartType''
     = Some (JStr ''pie'') \<and>
   settings (snd (switchWallet K0 2 None
               (snd (switchWallet K0 1 (Some ''w1'') app_two_contexts))))
     \<noteq> settings app_two_contexts"
proof -
  have a: "settings app_two_contexts ''reportChartType'' = None"
    by (simp add: app_two_contexts_def store_used_def K0_def initial_app_def empty_store_def
          or_default_def)
  have b: "settings (snd (switchWallet K0 2 None
               (snd (switchWallet K0 1 (Some ''w1'') app_two_contexts)))) ''reportChartType''
             = Some (JStr ''pie'')"
    by (simp add: app_two_contexts_def store_used_def wallet_saved_def K0_def initial_app_def
          empty_store_def or_default_def or_zero_def spread_opt_def truthy_def ctx_key_def
          operation_defs)
  have c: "activeWalletId (syncState app_two_contexts) = None \<and>
           \<not> isOnline (syncState app_two_contexts)"
    by (simp add: app_two_contexts_def store_used_def initial_app_def empty_store_def)
  from a b have "settings (snd (switchWallet K0 2 None
               (snd (switchWallet K0 1 (Some ''w1'') app_two_contexts))))
                 \<noteq> settings app_two_contexts"
    by (metis option.distinct(1))
  with a b c show ?thesis by simp
qed

text \<open>
  Claim C9, amended. Let the state \<open>s\<close> be in context \<open>A\<close>. Switch to \<open>B\<close>, then back to
  \<open>A\<close>, where either nothing happens in between and \<open>A\<close> is the personal context or the
  device is offline, or \<open>A\<close> is the personal context, \<open>B\<close> a wallet, and the remote copy of
  \<open>B\<close> is installed in between. Then the second switch awaits no remote fetch, the
  transactions, accounts, categories, budget and per-category budgets are exactly those
  of \<open>s\<close>, and the settings are those in force in \<open>B\<close> overlaid with those of \<open>s\<close>: each key
  of \<open>s\<close> has its old value, and the settings are exactly those of \<open>s\<close> when \<open>B\<close>'s settings
  have no key that \<open>s\<close> lacks. This rests on the first switch saving the snapshot of \<open>s\<close>
  under the key of \<open>A\<close> before it changes the active context and loads \<open>B\<close>.
\<close>

theorem C9_round_trip:
  assumes "activeWalletId (syncState s) = A"
    and "s1 = snd (switchWallet K now B s)"
    and "(mid = s1 \<and> (\<not> truthy A \<or> \<not> isOnline (syncState s))) \<or>
         (mid = switchWallet_fetched K now' B ans s1 \<and> truthy B \<and> \<not> truthy A)"
    and "s2 = snd (switchWallet K now'' A mid)"
  shows "st_composite (storage s1) (ctx_key A) = Some (current_data s) \<and>
         fst (switchWallet K now'' A mid) = False \<and>
         transactions s2 = transactions s \<and> accounts s2 = accounts s \<and>
         categories s2 = categories s \<and> budget s2 = budget s \<and>
         categoryBudgets s2 = categoryBudgets s \<and>
         settings s2 = settings mid ++ settings s \<and>
         (\<forall>k \<in> dom (settings s). settings s2 k = settings s k) \<and>
         (dom (settings mid) \<subseteq> dom (settings s) \<longrightarrow> settings s2 = settings s) \<and>
         activeWalletId (syncState s2) = A"
proof -
  note l1 = leg_out [OF assms(1) assms(2)]
  note mid = assms(3)
  have st: "st_composite (storage mid) (ctx_key A) = Some (current_data s)"
    using mid l1(1) by (auto simp: fetched_keeps)
  have act: "activeWalletId (syncState mid) = B"
    using mid l1(2) by (auto simp: fetched_keeps)
  have onl: "\<not> (truthy A \<and> isOnline (syncState mid))"
    using mid l1(3) by (auto simp: fetched_keeps)
  have key: "ctx_key (activeWalletId (syncState mid)) \<noteq> ctx_key A
               \<or> current_data mid = current_data s"
    using mid
  proof
    assume "mid = s1 \<and> (\<not> truthy A \<or> \<not> isOnline (syncState s))"
    then show ?thesis using l1(4) act by auto
  next
    assume "mid = switchWallet_fetched K now' B ans s1 \<and> truthy B \<and> \<not> truthy A"
    then show ?thesis using ctx_key_personal_wallet [of B A] act by auto
  qed
  have main: "transactions s2 = transactions s \<and> accounts s2 = accounts s \<and>
         categories s2 = categories s \<and> budget s2 = budget s \<and>
         categoryBudgets s2 = categoryBudgets s \<and>
         settings s2 = settings mid ++ settings s \<and>
         fst (switchWallet K now'' A mid) = False \<and>
         activeWalletId (syncState s2) = A"
    by (rule leg_back [OF st key onl assms(4)])
  have sub: "dom (settings mid) \<subseteq> dom (settings s) \<Longrightarrow> settings mid ++ settings s = settings s"
    by (rule ext) (auto simp: map_add_def split: option.splits)
  have keys: "\<forall>k \<in> dom (settings s). (settings mid ++ settings s) k = settings s k"
    by (auto simp: map_add_def split: option.splits)
  from main sub keys l1(1) show ?thesis by simp
qed

text \<open>Offline, from the personal context in use to the wallet \<^verbatim>\<open>w1\<close> and back. In
  between, the live snapshot is that of the wallet (another transaction, another budget,
  other accounts, another currency); after the return it is the personal one again.\<close>

theorem C9_round_trip_witness:
  "activeWalletId (syncState app_two_contexts) = None \<and>
   \<not> truthy None \<and> \<not> isOnline (syncState app_two_contexts) \<and>
   transactions app_two_contexts = [ex_t1] \<and>
   transactions (snd (switchWallet K0 1 (Some ''w1'') app_two_contexts)) = [ex_t3] \<and>
   transactions (snd (switchWallet K0 2 None
       (snd (switchWallet K0 1 (Some ''w1'') app_two_contexts)))) = [ex_t1] \<and>
   budget app_two_contexts = 300 \<and>
   budget (snd (switchWallet K0 1 (Some ''w1'') app_two_contexts)) = 50 \<and>
   budget (snd (switchWallet K0 2 None
       (snd (switchWallet K0 1 (Some ''w1'') app_two_contexts)))) = 300 \<and>
   accounts (snd (switchWallet K0 1 (Some ''w1'') app_two_contexts))
     \<noteq> accounts app_two_contexts \<and>
   accounts (snd (switchWallet K0 2 None
       (snd (switchWallet K0 1 (Some ''w1'') app_two_contexts)))) = accounts app_two_contexts \<and>
   categoryBudgets (snd (switchWallet K0 1 (Some ''w1'') app_two_contexts))
     \<noteq> categoryBudgets app_two_contexts \<and>
   categoryBudgets (snd (switchWallet K0 2 None
       (snd (switchWallet K0 1 (Some ''w1'') app_two_contexts))))
     = categoryBudgets app_two_contexts \<and>
   ''currency'' \<in> dom (settings app_two_contexts) \<and>
   settings app_two_contexts ''currency'' = Some (JStr ''$'') \<and>
   settings (snd (switchWallet K0 1 (Some ''w1'') app_two_contexts)) ''currency''
     = Some (JStr ''EUR'') \<and>
   settings (snd (switchWallet K0 2 None
       (snd (switchWallet K0 1 (Some ''w1'') app_two_contexts)))) ''currency''
     = Some (JStr ''$'')"
proof -
  have h1: "activeWalletId (syncState app_two_contexts) = None"
    by (simp add: app_two_contexts_def initial_app_def store_used_def empty_store_def)
  have off: "\<not> isOnline (syncState app_two_contexts)"
    by (simp add: app_two_contexts_def initial_app_def)
  have h3: "(snd (switchWallet K0 1 (Some ''w1'') app_two_contexts)
               = snd (switchWallet K0 1 (Some ''w1'') app_two_contexts) \<and>
             (\<not> truthy None \<or> \<not> isOnline (syncState app_two_contexts))) \<or>
            (snd (switchWallet K0 1 (Some ''w1'') app_two_contexts)
               = switchWallet_fetched K0 1 (Some ''w1'') (Returned None)
                   (snd (switchWallet K0 1 (Some ''w1'') app_two_contexts))
             \<and> truthy (Some ''w1'') \<and> \<not> truthy None)"
    by (simp add: truthy_def)
  have before: "transactions app_two_contexts = [ex_t1] \<and> budget app_two_contexts = 300 \<and>
                ''currency'' \<in> dom (settings app_two_contexts) \<and>
                settings app_two_contexts ''currency'' = Some (JStr ''$'')"
    by (simp add: app_two_contexts_def store_used_def K0_def initial_app_def empty_store_def
          or_default_def)
  have between: "transactions (snd (switchWallet K0 1 (Some ''w1'') app_two_contexts)) = [ex_t3] \<and>
     budget (snd (switchWallet K0 1 (Some ''w1'') app_two_contexts)) = 50 \<and>
     accounts (snd (switchWallet K0 1 (Some ''w1'') app_two_contexts))
       \<noteq> accounts app_two_contexts \<and>
     categoryBudgets (snd (switchWallet K0 1 (Some ''w1'') app_two_contexts))
       \<noteq> categoryBudgets app_two_contexts \<and>
     settings (snd (switchWallet K0 1 (Some ''w1'') app_two_contexts)) ''currency''
       = Some (JStr ''EUR'')"
    by (simp add: app_two_contexts_def store_used_def wallet_saved_def K0_def initial_app_def
          empty_store_def or_default_def or_zero_def spread_opt_def truthy_def ctx_key_def
          operation_defs)
  from C9_round_trip [OF h1 refl h3 refl, of 2] before
  have after: "transactions (snd (switchWallet K0 2 None
         (snd (switchWallet K0 1 (Some ''w1'') app_two_contexts)))) = [ex_t1] \<and>
     budget (snd (switchWallet K0 2 None
         (snd (switchWallet K0 1 (Some ''w1'') app_two_contexts)))) = 300 \<and>
     accounts (snd (switchWallet K0 2 None
         (snd (switchWallet K0 1 (Some ''w1'') app_two_contexts)))) = accounts app_two_contexts \<and>
     categoryBudgets (snd (switchWallet K0 2 None
         (snd (switchWallet K0 1 (Some ''w1'') app_two_contexts))))
       = categoryBudgets app_two_contexts \<and>
     settings (snd (switchWallet K0 2 None
         (snd (switchWallet K0 1 (Some ''w1'') app_two_contexts)))) ''currency''
       = Some (JStr ''$'')"
    by auto
  from h1 off before between after show ?thesis by (simp add: truthy_def)
qed

subsection \<open>Session guard\<close>

lemma sessionVersion_step:
  "\<not> is_reload ev \<Longrightarrow> sessionVersion s \<le> sessionVersion (step K date_ms ev s)"
  apply (cases ev)
                      apply (simp_all add: operation_defs
      split: option.splits fetched.splits if_splits push_request.splits
             restore_answer.splits prod.splits)
  subgoal for m
    by (cases m) (simp_all add: mutation_defs markAsDirty_def setSyncState_def Let_def)
  done

lemma sessionVersion_run:
  "\<forall>ev\<in>set evs. \<not> is_reload ev \<Longrightarrow> sessionVersion s \<le> sessionVersion (run K date_ms evs s)"
proof (induction evs arbitrary: s)
  case Nil
  show ?case by (simp add: run_def)
next
  case (Cons e es)
  have "sessionVersion s \<le> sessionVersion (step K date_ms e s)"
    using Cons.prems by (simp add: sessionVersion_step)
  also have "\<dots> \<le> sessionVersion (run K date_ms es (step K date_ms e s))"
    using Cons.prems by (intro Cons.IH) simp
  finally show ?case by (simp add: run_def)
qed

lemma stale_discarded:
  "v \<noteq> sessionVersion s \<Longrightarrow>
     snd (handleAuthStateChange_wallets v uid ans s) = s \<and>
     (\<forall>ws. ans = Returned ws \<longrightarrow> fst (handleAuthStateChange_wallets v uid ans s) = AuthDone) \<and>
     handleAuthStateChange_backup date_ms v ans' s = s"
  by (auto simp: handleAuthStateChange_wallets_def handleAuthStateChange_backup_def
        auth_reconcile_def split: fetched.splits)

text \<open>What holds of the guard: once a later authentication change has been handled,
  whatever events follow short of a page reload, a resumption holding an older version
  changes nothing.\<close>

lemma guard_after_handled_change:
  assumes "\<not> isLoggingOutRef s0" and "v0 \<le> sessionVersion s0"
    and "\<forall>ev\<in>set evs. \<not> is_reload ev"
    and "later = run K date_ms evs (snd (handleAuthStateChange online usr s0))"
  shows "snd (handleAuthStateChange_wallets v0 uid0 ans0 later) = later \<and>
         handleAuthStateChange_backup date_ms v0 ans0' later = later"
proof -
  define s1 where "s1 = snd (handleAuthStateChange online usr s0)"
  have "sessionVersion s1 = sessionVersion s0 + 1"
    using assms(1) by (simp add: s1_def handleAuthStateChange_def Let_def setSyncState_def
        auth_reconcile_def split: option.splits)
  moreover have "sessionVersion s1 \<le> sessionVersion later"
    unfolding assms(4) s1_def using assms(3) by (intro sessionVersion_run) simp
  ultimately have "v0 \<noteq> sessionVersion later" using assms(2) by linarith
  then show ?thesis
    using stale_discarded [of v0 later uid0 ans0 date_ms ans0'] by blast
qed

text \<open>
  Claim C10 does not hold of the code on the path through \<open>logout\<close>. A login is handled
  (\<open>app_login\<close>: version 1 is captured and the wallet list is awaited). Then \<open>logout\<close> runs
  to its end; the sign-out event that arrives while it runs is dropped by the test on
  \<open>isLoggingOutRef\<close>, which stands before the increment of the counter, and \<open>logout\<close>
  itself does not increment it. The state is then logged out with an empty wallet list,
  and \<open>sessionVersion\<close> is still 1: when the wallet list and the backup of the old login
  arrive, both resumptions pass the guard, install the wallet list and raise
  \<open>pendingRestoreAvailable\<close> with the remote timestamp as \<open>lastSync\<close>. Had the same
  sign-out been handled outside \<open>logout\<close>, the counter would be 2 and the same answer
  would be discarded.
\<close>

theorem C10_stale_login_survives_logout:
  "sessionVersion app_login = 1 \<and> isLoggedIn (syncState app_login) \<and>
   sessionVersion app_logged_out = 1 \<and>
   \<not> isLoggedIn (syncState app_logged_out) \<and> user (syncState app_logged_out) = None \<and>
   wallets app_logged_out = [] \<and> \<not> isLoggingOutRef app_logged_out \<and>
   \<not> pendingRestoreAvailable (syncState app_logged_out) \<and>
   lastSync (syncState app_logged_out) = None \<and>
   wallets (snd (handleAuthStateChange_wallets 1 ''u1'' (Returned [wallet9]) app_logged_out))
     = [wallet9] \<and>
   pendingRestoreAvailable (syncState
     (handleAuthStateChange_backup ms0 1 (Returned (Some backup_1500)) app_logged_out)) \<and>
   lastSync (syncState
     (handleAuthStateChange_backup ms0 1 (Returned (Some backup_1500)) app_logged_out))
     = Some ''T2500'' \<and>
   sessionVersion (step K0 ms0 (HandleAuthStateChange True None) app_login) = 2 \<and>
   wallets (snd (handleAuthStateChange_wallets 1 ''u1'' (Returned [wallet9])
              (step K0 ms0 (HandleAuthStateChange True None) app_login))) = []"
proof -
  have login: "sessionVersion app_login = 1 \<and> isLoggedIn (syncState app_login) \<and>
               \<not> isLoggingOutRef app_login \<and> activeWalletId (syncState app_login) = None \<and>
               wallets app_login = [] \<and> st_LAST_SYNC (storage app_login) = None \<and>
               st_ACTIVE_WALLET_ID (storage app_login) = None \<and>
               \<not> pendingRestoreAvailable (syncState app_login)"
    by (simp add: app_login_def app0_def initial_app_def empty_store_def or_default_def
          handleAuthStateChange_def handleOnline_def auth_reconcile_def setSyncState_def
          Let_def truthy_def)
  have out: "sessionVersion app_logged_out = 1 \<and>
             \<not> isLoggedIn (syncState app_logged_out) \<and> user (syncState app_logged_out) = None \<and>
             wallets app_logged_out = [] \<and> \<not> isLoggingOutRef app_logged_out \<and>
             \<not> pendingRestoreAvailable (syncState app_logged_out) \<and>
             lastSync (syncState app_logged_out) = None \<and>
             st_LAST_SYNC (storage app_logged_out) = None \<and>
             st_ACTIVE_WALLET_ID (storage app_logged_out) = None"
    using login
    by (simp add: app_logged_out_def run_def logout_def logout_signedOut_def
          handleAuthStateChange_def setSyncState_def showNotification_def Let_def truthy_def)
  have w: "wallets (snd (handleAuthStateChange_wallets 1 ''u1'' (Returned [wallet9])
                      app_logged_out)) = [wallet9]"
    using out by (simp add: handleAuthStateChange_wallets_def auth_reconcile_def)
  have b: "pendingRestoreAvailable (syncState
             (handleAuthStateChange_backup ms0 1 (Returned (Some backup_1500)) app_logged_out)) \<and>
           lastSync (syncState
             (handleAuthStateChange_backup ms0 1 (Returned (Some backup_1500)) app_logged_out))
             = Some ''T2500''"
    using out
    by (simp add: handleAuthStateChange_backup_def backup_1500_def Let_def setSyncState_def
          truthy_def or_null_def)
  have c: "sessionVersion (step K0 ms0 (HandleAuthStateChange True None) app_login) = 2 \<and>
           wallets (snd (handleAuthStateChange_wallets 1 ''u1'' (Returned [wallet9])
              (step K0 ms0 (HandleAuthStateChange True None) app_login))) = []"
    using login
    by (simp add: handleAuthStateChange_def handleAuthStateChange_wallets_def setSyncState_def
          Let_def)
  from login out w b c show ?thesis by simp
qed

text \<open>So the old login's answers change the logged-out state: the wallet list and the
  restore flag after them are not those that \<open>logout\<close> left.\<close>

theorem C10_stale_login_survives_logout_witness:
  "wallets (snd (handleAuthStateChange_wallets 1 ''u1'' (Returned [wallet9]) app_logged_out))
     \<noteq> wallets app_logged_out \<and>
   snd (handleAuthStateChange_wallets 1 ''u1'' (Returned [wallet9]) app_logged_out)
     \<noteq> app_logged_out \<and>
   pendingRestoreAvailable (syncState
     (handleAuthStateChange_backup ms0 1 (Returned (Some backup_1500)) app_logged_out))
     \<noteq> pendingRestoreAvailable (syncState app_logged_out) \<and>
   handleAuthStateChange_backup ms0 1 (Returned (Some backup_1500)) app_logged_out
     \<noteq> app_logged_out"
proof -
  note facts = C10_stale_login_survives_logout
  from facts have w: "wallets (snd (handleAuthStateChange_wallets 1 ''u1'' (Returned [wallet9])
                         app_logged_out)) \<noteq> wallets app_logged_out"
    by simp
  from facts have p: "pendingRestoreAvailable (syncState
       (handleAuthStateChange_backup ms0 1 (Returned (Some backup_1500)) app_logged_out))
       \<noteq> pendingRestoreAvailable (syncState app_logged_out)"
    by simp
  from w have w': "snd (handleAuthStateChange_wallets 1 ''u1'' (Returned [wallet9]) app_logged_out)
                     \<noteq> app_logged_out"
    by auto
  from p have p': "handleAuthStateChange_backup ms0 1 (Returned (Some backup_1500)) app_logged_out
                     \<noteq> app_logged_out"
    by auto
  from w w' p p' show ?thesis by simp
qed


end
